theory Spec2Isabelle
  imports Complex_Main "HOL-Library.Sublist" "HOL-Library.Product_Lexorder"
begin

section \<open>Values shared by the services\<close>

text \<open>
  Mongo ObjectIds are modelled by natural numbers. \<^verbatim>\<open>toString\<close> on an ObjectId is
  injective, so an id also stands for the string the code uses as a cache key or receives
  as a request parameter.
\<close>

type_synonym oid = nat

text \<open>
  A JavaScript exception. The chat and AI services distinguish NestJS \<^verbatim>\<open>HttpException\<close>s
  (by \<^verbatim>\<open>instanceof\<close>) from every other error, and read the fields \<^verbatim>\<open>name\<close>,
  \<^verbatim>\<open>message\<close> and \<^verbatim>\<open>status\<close> of the latter. \<open>JsError name message status\<close> is an
  error that is not an \<^verbatim>\<open>HttpException\<close>; its third field is what
  \<^verbatim>\<open>err?.status ?? err?.response?.status\<close> reads. An \<^verbatim>\<open>HttpException\<close> carries its class
  and its message. The messages of the source are Spanish; HOL characters are bytes, so
  accented letters are written without their accents here.
\<close>

datatype http_exception =
    OpenAiRateLimitException
  | OpenAiMisconfiguredException
  | OpenAiUnavailableException
  | OpenAiInvalidResponseException
  | InternalServerErrorException

datatype exn =
    JsError string string "nat option"
  | HttpException http_exception string

fun http_status :: "http_exception \<Rightarrow> nat" where
  "http_status OpenAiRateLimitException = 429"
| "http_status OpenAiMisconfiguredException = 500"
| "http_status OpenAiUnavailableException = 503"
| "http_status OpenAiInvalidResponseException = 502"
| "http_status InternalServerErrorException = 500"

fun http_name :: "http_exception \<Rightarrow> string" where
  "http_name OpenAiRateLimitException = ''OpenAiRateLimitException''"
| "http_name OpenAiMisconfiguredException = ''OpenAiMisconfiguredException''"
| "http_name OpenAiUnavailableException = ''OpenAiUnavailableException''"
| "http_name OpenAiInvalidResponseException = ''OpenAiInvalidResponseException''"
| "http_name InternalServerErrorException = ''InternalServerErrorException''"

fun status_of :: "exn \<Rightarrow> nat option" where
  "status_of (JsError n m st) = st"
| "status_of (HttpException h m) = Some (http_status h)"

fun name_of :: "exn \<Rightarrow> string" where
  "name_of (JsError n m st) = n"
| "name_of (HttpException h m) = http_name h"

fun message_of :: "exn \<Rightarrow> string" where
  "message_of (JsError n m st) = m"
| "message_of (HttpException h m) = m"

fun isHttpException :: "exn \<Rightarrow> bool" where
  "isHttpException (JsError n m st) = False"
| "isHttpException (HttpException h m) = True"

section \<open>JavaScript numbers\<close>

text \<open>
  A Number is an IEEE 754 double: \<open>NaN\<close>, or a sign bit (true for negative) with a
  magnitude that is infinite or finite. The finite magnitudes of doubles are the reals
  \<open>n * 2 ^ e\<close> with \<open>n < 2 ^ 53\<close> and \<open>- 1074 \<le> e \<le> 971\<close>; \<open>Number True (Finite 0)\<close> is
  the negative zero.
\<close>

datatype magnitude = Infinite | Finite real

datatype number = NaN | Number bool magnitude

abbreviation positive :: "real \<Rightarrow> number" where
  "positive x \<equiv> Number False (Finite x)"

text \<open>
  Every operation returns the double nearest to its exact result, a tie going to the even
  significand. Around a magnitude \<open>x\<close> with \<open>2 ^ e \<le> x < 2 ^ (e + 1)\<close> the doubles are the
  multiples of \<open>2 ^ (e - 52)\<close>; below \<open>2 ^ - 1022\<close> they are the multiples of \<open>2 ^ - 1074\<close>
  (the subnormal doubles). A result that rounds to \<open>2 ^ 1024\<close> or more is infinite.

  \<open>exponentOf x\<close> is the \<open>e\<close> above for a positive real \<open>x\<close>, and \<open>- 1022\<close> in the subnormal
  range; \<open>nearest x\<close> is the multiple of \<open>2 ^ (exponentOf x - 52)\<close> nearest to \<open>x\<close>, a tie
  going to the even multiple; \<open>roundMagnitude\<close> is the rounding of an exact non-negative
  result.
\<close>

definition roundHalfEven :: "real \<Rightarrow> int" where
  "roundHalfEven y =
     (let f = \<lfloor>y\<rfloor>; d = y - of_int f
      in if d < 1 / 2 then f else if 1 / 2 < d then f + 1 else if even f then f else f + 1)"

definition exponentOf :: "real \<Rightarrow> int" where
  "exponentOf x = max \<lfloor>log 2 x\<rfloor> (- 1022)"

definition nearest :: "real \<Rightarrow> real" where
  "nearest x =
     (let q = 2 powi (exponentOf x - 52)
      in of_int (roundHalfEven (x / q)) * q)"

definition roundMagnitude :: "real \<Rightarrow> magnitude" where
  "roundMagnitude x =
     (if x = 0 then Finite 0
      else if 2 ^ 1024 \<le> nearest x then Infinite else Finite (nearest x))"

text \<open>
  \<^verbatim>\<open>a * b\<close>, \<^verbatim>\<open>a / b\<close> and \<^verbatim>\<open>a + b\<close> on Numbers. The sign of a product or quotient is
  the exclusive or of the signs; infinity times zero, zero by zero, infinity by infinity
  and the sum of opposite infinities are \<open>NaN\<close>; a sum of opposite equal magnitudes is the
  positive zero.
\<close>

fun numberMultiply :: "number \<Rightarrow> number \<Rightarrow> number" where
  "numberMultiply (Number s a) (Number t b) =
     (case (a, b) of
        (Finite x, Finite y) \<Rightarrow> Number (s \<noteq> t) (roundMagnitude (x * y))
      | (Finite x, Infinite) \<Rightarrow> if x = 0 then NaN else Number (s \<noteq> t) Infinite
      | (Infinite, Finite y) \<Rightarrow> if y = 0 then NaN else Number (s \<noteq> t) Infinite
      | (Infinite, Infinite) \<Rightarrow> Number (s \<noteq> t) Infinite)"
| "numberMultiply _ _ = NaN"

fun numberDivide :: "number \<Rightarrow> number \<Rightarrow> number" where
  "numberDivide (Number s a) (Number t b) =
     (case (a, b) of
        (Finite x, Finite y) \<Rightarrow>
          if y = 0 then (if x = 0 then NaN else Number (s \<noteq> t) Infinite)
          else Number (s \<noteq> t) (roundMagnitude (x / y))
      | (Finite x, Infinite) \<Rightarrow> Number (s \<noteq> t) (Finite 0)
      | (Infinite, Finite y) \<Rightarrow> Number (s \<noteq> t) Infinite
      | (Infinite, Infinite) \<Rightarrow> NaN)"
| "numberDivide _ _ = NaN"

fun numberAdd :: "number \<Rightarrow> number \<Rightarrow> number" where
  "numberAdd (Number s a) (Number t b) =
     (case (a, b) of
        (Finite x, Finite y) \<Rightarrow>
          if s = t then Number s (roundMagnitude (x + y))
          else if x = y then positive 0
          else if y < x then Number s (roundMagnitude (x - y))
          else Number t (roundMagnitude (y - x))
      | (Finite x, Infinite) \<Rightarrow> Number t Infinite
      | (Infinite, Finite y) \<Rightarrow> Number s Infinite
      | (Infinite, Infinite) \<Rightarrow> if s = t then Number s Infinite else NaN)"
| "numberAdd _ _ = NaN"

text \<open>
  \<^verbatim>\<open>Math.sqrt\<close>: the square root operation of IEEE 754, rounded like the arithmetic
  operations (Node.js computes it with the processor's instruction).
\<close>

fun mathSqrt :: "number \<Rightarrow> number" where
  "mathSqrt NaN = NaN"
| "mathSqrt (Number s Infinite) = (if s then NaN else Number False Infinite)"
| "mathSqrt (Number s (Finite x)) =
     (if x = 0 then Number s (Finite 0)
      else if s then NaN
      else Number False (roundMagnitude (sqrt x)))"

text \<open>
  Comparisons read a Number that is not \<open>NaN\<close> as an extended real: an infinity lies
  beyond every finite value, and the two zeros have the same value. \<open>extendedValue\<close> is a
  pair, compared lexicographically: first - 1, 0 or 1 for negative infinity, a finite
  Number or positive infinity, then the signed value of a finite Number. \<^verbatim>\<open>a === b\<close> and
  \<^verbatim>\<open>a >= b\<close> are false when either side is \<open>NaN\<close>. The falsy Numbers are \<open>NaN\<close> and the
  two zeros.
\<close>

fun extendedValue :: "number \<Rightarrow> int \<times> real" where
  "extendedValue NaN = (0, 0)"
| "extendedValue (Number s Infinite) = (if s then - 1 else 1, 0)"
| "extendedValue (Number s (Finite x)) = (0, if s then - x else x)"

definition strictEquals :: "number \<Rightarrow> number \<Rightarrow> bool" where
  "strictEquals a b = (a \<noteq> NaN \<and> b \<noteq> NaN \<and> extendedValue a = extendedValue b)"

definition greaterOrEqual :: "number \<Rightarrow> number \<Rightarrow> bool" where
  "greaterOrEqual a b = (a \<noteq> NaN \<and> b \<noteq> NaN \<and> extendedValue b \<le> extendedValue a)"

definition isFalsy :: "number \<Rightarrow> bool" where
  "isFalsy a = (a = NaN \<or> strictEquals a (positive 0))"

text \<open>\<^verbatim>\<open>Number.isFinite\<close>.\<close>

fun isFinite :: "number \<Rightarrow> bool" where
  "isFinite (Number s (Finite x)) = True"
| "isFinite _ = False"

section \<open>External collaborators\<close>

text \<open>
  The document store, the embedding and generation capabilities and the call scheduler are
  reached through asynchronous calls whose outcome the services cannot control. One run of
  an operation is modelled against an environment that fixes those outcomes.

  Every store call site can reject; \<open>storeFails\<close> says which ones do in this run.
\<close>

datatype store_call =
    ConversationFindById
  | ConversationCreate
  | ConversationFindOne
  | ConversationUpdateMany
  | ConversationFindByIdAndUpdate
  | ConversationFindByIdAndDelete
  | ChatMessageCreateUser
  | ChatMessageCreateAssistant
  | ChatMessageFind
  | ChatMessageDeleteMany
  | KnowledgeChunkFind

text \<open>The error a rejected store call raises; it is not an \<^verbatim>\<open>HttpException\<close> and has no status.\<close>

definition storeError :: exn where
  "storeError = JsError ''MongoServerError'' ''store call rejected'' None"

datatype role = User | Assistant | System

record MessageHistory =
  h_role :: role
  h_content :: string

text \<open>What \<^verbatim>\<open>openai.responses.create\<close> resolves to, and the events of its streaming form.\<close>

record provider_response =
  output_text :: "string option"
  usage_total_tokens :: "nat option"
  response_model :: string

datatype stream_event = OutputTextDelta string | OtherEvent

record chunk_metadata =
  tokenCount :: "nat option"
  pageNumber :: "nat option"
  section_name :: "string option"

record KnowledgeChunk =
  chunk_courseId :: oid
  chunk_content :: string
  chunk_embedding :: "number list"
  chunkIndex :: nat
  chunk_meta :: "chunk_metadata option"

record env =
  apiKey :: bool
  storeFails :: "store_call \<Rightarrow> bool"
  knowledgeChunks :: "KnowledgeChunk list"
  embeddingsCreate :: "string \<Rightarrow> exn + (number list \<times> nat)"
  responsesCreate :: "MessageHistory list \<Rightarrow> nat \<Rightarrow> exn + provider_response"
  responsesStream :: "MessageHistory list \<Rightarrow> exn + (stream_event list \<times> exn option)"
  limiterRejection :: "exn option"
  baseSystemPrompt :: string
  placeholderReply :: string

text \<open>
  \<^item> \<open>apiKey\<close>: \<^verbatim>\<open>OPENAI_API_KEY\<close> is configured (both services read the same key).
  \<^item> \<open>knowledgeChunks\<close>: the chunk collection, in the order \<^verbatim>\<open>find\<close> returns it; no
    operation modelled here writes it.
  \<^item> \<open>embeddingsCreate text\<close>: the outcome of \<^verbatim>\<open>openai.embeddings.create\<close>, the vector
    and the token count, or the error it rejects with.
  \<^item> \<open>responsesCreate input n\<close>: the outcome of the \<open>n\<close>-th call (from 0) of
    \<^verbatim>\<open>openai.responses.create\<close> on \<open>input\<close> within one generation request.
  \<^item> \<open>responsesStream input\<close>: the streaming call; it rejects, or yields events and then
    either ends or raises.
  \<^item> \<open>limiterRejection\<close>: \<open>Some e\<close> when the scheduler (Bottleneck, \<^verbatim>\<open>highWater: 20\<close>,
    strategy OVERFLOW) drops the job because its queue is full, rejecting the job's promise
    with \<open>e\<close>; \<open>None\<close> when it runs the job.
  \<^item> \<open>baseSystemPrompt\<close>: the fixed system instruction text of \<^verbatim>\<open>AiService\<close>.
  \<^item> \<open>placeholderReply\<close>: the canned reply \<^verbatim>\<open>Math.random\<close> selects in degraded mode.
\<close>

section \<open>JavaScript strings\<close>

text \<open>
  Strings are lists of code units; the model covers the code units below 256, which are
  the characters of HOL. \<^verbatim>\<open>\s\<close> and \<^verbatim>\<open>trim\<close> treat the same code units as white space:
  tab, line feed, vertical tab, form feed, carriage return, space and no-break space.
\<close>

definition isSpace :: "char \<Rightarrow> bool" where
  "isSpace c = (c \<in> {CHR 0x09, CHR 0x0A, CHR 0x0B, CHR 0x0C, CHR 0x0D, CHR 0x20, CHR 0xA0})"

definition trim :: "string \<Rightarrow> string" where
  "trim s = rev (dropWhile isSpace (rev (dropWhile isSpace s)))"

text \<open>
  \<^verbatim>\<open>toLowerCase\<close>: among the code units below 256 the upper-case letters are \<^verbatim>\<open>A\<close> to
  \<^verbatim>\<open>Z\<close> and the code units 0xC0 to 0xDE other than the multiplication sign 0xD7; each
  has its lower-case letter 32 places above.
\<close>

definition isUpper :: "char \<Rightarrow> bool" where
  "isUpper c =
     (let n = (of_char c :: nat)
      in 65 \<le> n \<and> n \<le> 90 \<or> 192 \<le> n \<and> n \<le> 222 \<and> n \<noteq> 215)"

definition toLowerCase :: "string \<Rightarrow> string" where
  "toLowerCase s = map (\<lambda>c. if isUpper c then char_of (of_char c + 32 :: nat) else c) s"

text \<open>\<^verbatim>\<open>s.includes(sub)\<close>.\<close>

fun stringIncludes :: "string \<Rightarrow> string \<Rightarrow> bool" where
  "stringIncludes [] sub = (sub = [])"
| "stringIncludes (c # cs) sub = (prefix sub (c # cs) \<or> stringIncludes cs sub)"

text \<open>\<^verbatim>\<open>s.split(c)\<close> for a one-character separator: adjacent separators give empty pieces.\<close>

fun splitOn :: "char \<Rightarrow> string \<Rightarrow> string list" where
  "splitOn sep [] = [[]]"
| "splitOn sep (c # cs) =
     (if c = sep then [] # splitOn sep cs
      else (case splitOn sep cs of [] \<Rightarrow> [[c]] | w # ws \<Rightarrow> (c # w) # ws))"

fun joinWith :: "string \<Rightarrow> string list \<Rightarrow> string" where
  "joinWith sep [] = []"
| "joinWith sep [x] = x"
| "joinWith sep (x # y # ys) = x @ sep @ joinWith sep (y # ys)"

section \<open>KnowledgeService\<close>

subsection \<open>cosineSimilarity\<close>

text \<open>
  The loop of \<^verbatim>\<open>cosineSimilarity\<close> runs over the indices of \<open>vecA\<close> after the length
  check, accumulating three sums from the positive zero; it is a left fold over the paired
  components. Every product, sum, square root and the quotient is rounded.
\<close>

definition cosineStep :: "number \<times> number \<times> number \<Rightarrow> number \<times> number \<Rightarrow> number \<times> number \<times> number" where
  "cosineStep acc ab =
     (case acc of (dotProduct, normA, normB) \<Rightarrow>
        (case ab of (a, b) \<Rightarrow>
           (numberAdd dotProduct (numberMultiply a b),
            numberAdd normA (numberMultiply a a),
            numberAdd normB (numberMultiply b b))))"

definition cosineSimilarity :: "number list \<Rightarrow> number list \<Rightarrow> exn + number" where
  "cosineSimilarity vecA vecB =
     (if length vecA \<noteq> length vecB
      then Inl (JsError ''Error'' ''Vectors must have the same length'' None)
      else (case foldl cosineStep (positive 0, positive 0, positive 0) (zip vecA vecB) of
              (dotProduct, normA, normB) \<Rightarrow>
                (let magnitude = numberMultiply (mathSqrt normA) (mathSqrt normB)
                 in Inr (if strictEquals magnitude (positive 0) then positive 0
                         else numberDivide dotProduct magnitude))))"

text \<open>
  The quantities the specification names, in the arithmetic of Numbers: a sum is
  accumulated from the left, the dot product is the sum of the products of the paired
  components, and the Euclidean norm is the square root of the sum of the squares.
\<close>

definition accumulate :: "number list \<Rightarrow> number" where
  "accumulate xs = foldl numberAdd (positive 0) xs"

definition dot :: "number list \<Rightarrow> number list \<Rightarrow> number" where
  "dot a b = accumulate (map2 numberMultiply a b)"

definition sumOfSquares :: "number list \<Rightarrow> number" where
  "sumOfSquares a = accumulate (map (\<lambda>x. numberMultiply x x) a)"

definition euclideanNorm :: "number list \<Rightarrow> number" where
  "euclideanNorm a = mathSqrt (sumOfSquares a)"

subsection \<open>splitIntoChunks\<close>

text \<open>
  \<^verbatim>\<open>text.split(/(?<=[.!?])\s+/)\<close>: a separator is a maximal run of white space that directly
  follows one of the characters \<^verbatim>\<open>.\<close>, \<^verbatim>\<open>!\<close>, \<^verbatim>\<open>?\<close>. \<open>splitFrom piece rest\<close> scans \<open>rest\<close>
  with \<open>piece\<close> the part of the current sentence already read. The empty text gives one
  empty piece, as \<^verbatim>\<open>split\<close> does.
\<close>

definition isTerminal :: "char \<Rightarrow> bool" where
  "isTerminal c = (c = CHR ''.'' \<or> c = CHR ''!'' \<or> c = CHR ''?'')"

function splitFrom :: "string \<Rightarrow> string \<Rightarrow> string list" where
  "splitFrom piece [] = [piece]"
| "splitFrom piece (c # cs) =
     (if isTerminal c \<and> cs \<noteq> [] \<and> isSpace (hd cs)
      then (piece @ [c]) # splitFrom [] (dropWhile isSpace cs)
      else splitFrom (piece @ [c]) cs)"
  by pat_completeness auto
termination
  by (relation "measure (\<lambda>(piece, cs). length cs)")
     (auto simp: length_dropWhile_le less_Suc_eq_le)

definition splitSentences :: "string \<Rightarrow> string list" where
  "splitSentences text = splitFrom [] text"

text \<open>
  The body of the \<^verbatim>\<open>for\<close> loop of \<^verbatim>\<open>splitIntoChunks\<close>, on the pair of \<^verbatim>\<open>chunks\<close> and
  \<^verbatim>\<open>currentChunk\<close>; the empty string is the only falsy string.
\<close>

definition chunkStep :: "int \<Rightarrow> string list \<times> string \<Rightarrow> string \<Rightarrow> string list \<times> string" where
  "chunkStep maxChunkSize st sentence =
     (case st of (chunks, currentChunk) \<Rightarrow>
        if int (length (currentChunk @ sentence)) > maxChunkSize \<and> currentChunk \<noteq> []
        then (chunks @ [trim currentChunk], sentence)
        else (chunks, currentChunk @ (if currentChunk \<noteq> [] then '' '' else []) @ sentence))"

text \<open>The last \<^verbatim>\<open>if\<close> of \<^verbatim>\<open>splitIntoChunks\<close>: what is left in the buffer becomes a chunk.\<close>

definition flushRemaining :: "string list \<times> string \<Rightarrow> string list" where
  "flushRemaining st =
     (case st of (chunks, currentChunk) \<Rightarrow>
        if currentChunk \<noteq> [] then chunks @ [trim currentChunk] else chunks)"

definition splitIntoChunks :: "string \<Rightarrow> int \<Rightarrow> string list" where
  "splitIntoChunks text maxChunkSize =
     flushRemaining (foldl (chunkStep maxChunkSize) ([], []) (splitSentences text))"

subsection \<open>createEmbedding and searchSimilar\<close>

record SearchResult =
  sr_content :: string
  sr_courseId :: oid
  sr_score :: number
  sr_metadata :: "chunk_metadata option"

record search_options =
  opt_courseId :: "oid option"
  opt_limit :: "int option"
  opt_minScore :: "number option"

definition isConfigured :: "env \<Rightarrow> bool" where
  "isConfigured env = apiKey env"

definition createEmbedding :: "env \<Rightarrow> string \<Rightarrow> exn + (number list \<times> nat)" where
  "createEmbedding env text =
     (if \<not> isConfigured env
      then Inl (JsError ''Error'' ''OpenAI not configured for generating embeddings'' None)
      else (case embeddingsCreate env text of
              Inl err \<Rightarrow> Inl err
            | Inr r \<Rightarrow> Inr r))"

text \<open>\<^verbatim>\<open>knowledgeChunkModel.find(filter).lean()\<close>: the chunks in the store's order.\<close>

definition findChunks :: "env \<Rightarrow> oid option \<Rightarrow> exn + KnowledgeChunk list" where
  "findChunks env courseId =
     (if storeFails env KnowledgeChunkFind then Inl storeError
      else Inr (case courseId of
                  None \<Rightarrow> knowledgeChunks env
                | Some c \<Rightarrow> filter (\<lambda>chunk. chunk_courseId chunk = c) (knowledgeChunks env)))"

text \<open>
  \<^verbatim>\<open>chunks.map(chunk => ({...chunk, score}))\<close>: the first chunk whose embedding has another
  length than the query's makes \<^verbatim>\<open>cosineSimilarity\<close> throw, which ends the map.
\<close>

fun scoreChunks :: "number list \<Rightarrow> KnowledgeChunk list \<Rightarrow> exn + (KnowledgeChunk \<times> number) list" where
  "scoreChunks queryEmbedding [] = Inr []"
| "scoreChunks queryEmbedding (chunk # chunks) =
     (case cosineSimilarity queryEmbedding (chunk_embedding chunk) of
        Inl err \<Rightarrow> Inl err
      | Inr score \<Rightarrow>
          (case scoreChunks queryEmbedding chunks of
             Inl err \<Rightarrow> Inl err
           | Inr scored \<Rightarrow> Inr ((chunk, score) # scored)))"

text \<open>
  \<^verbatim>\<open>sort((a, b) => b.score - a.score)\<close>: \<^verbatim>\<open>Array.prototype.sort\<close> is stable, so it is the
  stable sort by descending score. The sort runs after the filter, which keeps no \<open>NaN\<close>
  score; on the other scores the sign of \<^verbatim>\<open>b.score - a.score\<close> is the order of their
  extended values, and the difference of two equal infinities, \<open>NaN\<close>, counts as 0 for
  the sort. The sort key is the extended value with both parts negated, ordered
  lexicographically. \<^verbatim>\<open>slice(0, end)\<close> counts a negative end index from the end of the
  array.
\<close>

definition descendingKey :: "number \<Rightarrow> int \<times> real" where
  "descendingKey a = (case extendedValue a of (c, v) \<Rightarrow> (- c, - v))"

definition sortByScoreDesc :: "(KnowledgeChunk \<times> number) list \<Rightarrow> (KnowledgeChunk \<times> number) list" where
  "sortByScoreDesc scored = sort_key (\<lambda>c. descendingKey (snd c)) scored"

definition slice0 :: "'a list \<Rightarrow> int \<Rightarrow> 'a list" where
  "slice0 xs stop =
     (let n = int (length xs);
          k = (if stop < 0 then max (n + stop) 0 else min stop n)
      in take (nat k) xs)"

definition toSearchResult :: "KnowledgeChunk \<times> number \<Rightarrow> SearchResult" where
  "toSearchResult c =
     \<lparr> sr_content = chunk_content (fst c), sr_courseId = chunk_courseId (fst c),
       sr_score = snd c, sr_metadata = chunk_meta (fst c) \<rparr>"

text \<open>
  \<^verbatim>\<open>options?.limit || 3\<close> and \<^verbatim>\<open>options?.minScore || 0.5\<close>: a falsy Number gives the
  default, as a missing value does.
\<close>

definition effectiveLimit :: "search_options \<Rightarrow> int" where
  "effectiveLimit options =
     (case opt_limit options of None \<Rightarrow> 3 | Some l \<Rightarrow> if l = 0 then 3 else l)"

definition effectiveMinScore :: "search_options \<Rightarrow> number" where
  "effectiveMinScore options =
     (case opt_minScore options of
        None \<Rightarrow> positive (1 / 2)
      | Some m \<Rightarrow> if isFalsy m then positive (1 / 2) else m)"

text \<open>The chain \<^verbatim>\<open>map, filter, sort, slice\<close> of \<^verbatim>\<open>searchSimilar\<close>, before the final projection.\<close>

definition rankChunks :: "number \<Rightarrow> int \<Rightarrow> (KnowledgeChunk \<times> number) list \<Rightarrow> (KnowledgeChunk \<times> number) list" where
  "rankChunks minScore limit scored =
     slice0 (sortByScoreDesc (filter (\<lambda>c. greaterOrEqual (snd c) minScore) scored)) limit"

definition searchSimilar :: "env \<Rightarrow> string \<Rightarrow> search_options \<Rightarrow> exn + SearchResult list" where
  "searchSimilar env query options =
     (if \<not> isConfigured env then Inr []
      else
        (let limit = effectiveLimit options;
             minScore = effectiveMinScore options
         in case createEmbedding env query of
              Inl err \<Rightarrow> Inr []
            | Inr (queryEmbedding, tokens) \<Rightarrow>
                (case findChunks env (opt_courseId options) of
                   Inl err \<Rightarrow> Inl err
                 | Inr chunks \<Rightarrow>
                     if chunks = [] then Inr []
                     else (case scoreChunks queryEmbedding chunks of
                             Inl err \<Rightarrow> Inl err
                           | Inr scored \<Rightarrow>
                               Inr (map toSearchResult (rankChunks minScore limit scored))))))"

section \<open>The rate limiter and retry helper\<close>

text \<open>
  A JavaScript call either throws synchronously or returns a promise, which settles to a
  rejection or to a value. A \<^verbatim>\<open>try\<close> block around \<^verbatim>\<open>return f()\<close> catches only what
  \<open>f\<close> throws synchronously: the promise is handed to the caller without being awaited.
\<close>

datatype 'a call = Thrown exn | Returned "exn + 'a"

text \<open>
  \<^verbatim>\<open>limiter.schedule(job)\<close> returns its promise at once. When the queue is full the job is
  dropped and that promise is rejected; otherwise the promise settles as the job does.
\<close>

definition schedule :: "env \<Rightarrow> (exn + 'a) \<Rightarrow> 'a call" where
  "schedule env job = Returned (case limiterRejection env of Some e \<Rightarrow> Inl e | None \<Rightarrow> job)"

text \<open>
  The \<^verbatim>\<open>for(;;)\<close> loop of \<^verbatim>\<open>withRateLimitAndRetry\<close>. \<open>fn n\<close> is the outcome of the
  \<open>n\<close>-th call of \<^verbatim>\<open>fn\<close>; \<^verbatim>\<open>attempt\<close> counts the failed calls so far, so it is also the
  number of the next call. The waiting time between two calls is not modelled.
\<close>

function retryLoop :: "(nat \<Rightarrow> exn + 'a) \<Rightarrow> nat \<Rightarrow> nat \<Rightarrow> exn + 'a" where
  "retryLoop fn maxRetries attempt =
     (case fn attempt of
        Inr v \<Rightarrow> Inr v
      | Inl err \<Rightarrow>
          if status_of err \<noteq> Some 429 \<or> attempt \<ge> maxRetries then Inl err
          else retryLoop fn maxRetries (attempt + 1))"
  by pat_completeness auto
termination
  by (relation "measure (\<lambda>(fn, maxRetries, attempt). maxRetries - attempt)") auto

definition withRateLimitAndRetry :: "env \<Rightarrow> (nat \<Rightarrow> exn + 'a) \<Rightarrow> nat option \<Rightarrow> exn + 'a" where
  "withRateLimitAndRetry env fn optMaxRetries =
     (let maxRetries = (case optMaxRetries of None \<Rightarrow> 5 | Some m \<Rightarrow> m)
      in case schedule env (retryLoop fn maxRetries 0) of
           Returned promise \<Rightarrow> promise
         | Thrown err \<Rightarrow>
             (let msg = message_of err;
                  isOverflow =
                    (name_of err = ''BottleneckError'' \<or>
                     stringIncludes (toLowerCase msg) ''overflow'' \<or>
                     stringIncludes (toLowerCase msg) ''highwater'')
              in if isOverflow then Inl (JsError ''Error'' ''Rate limit queue overflow'' (Some 429))
                 else Inl err))"

section \<open>AiService\<close>

record AiResponse =
  ai_content :: string
  ai_tokensUsed :: "nat option"
  ai_model :: "string option"

definition lineFeed :: char where
  "lineFeed = CHR 0x0A"

definition generatePlaceholderResponse :: "env \<Rightarrow> AiResponse" where
  "generatePlaceholderResponse env =
     \<lparr> ai_content = ''[RESPUESTA PLACEHOLDER - Implementar OpenAI]'' @ [lineFeed, lineFeed] @
                     placeholderReply env,
       ai_tokensUsed = Some 0, ai_model = Some ''placeholder'' \<rparr>"

text \<open>The function \<^verbatim>\<open>response\<close> hands to \<^verbatim>\<open>withRateLimitAndRetry\<close>, at its \<open>n\<close>-th call.\<close>

definition callProvider :: "env \<Rightarrow> MessageHistory list \<Rightarrow> nat \<Rightarrow> exn + AiResponse" where
  "callProvider env messages n =
     (case responsesCreate env messages n of
        Inl err \<Rightarrow> Inl err
      | Inr result \<Rightarrow>
          (case map_option trim (output_text result) of
             None \<Rightarrow> Inl (HttpException OpenAiInvalidResponseException ''Respuesta de OpenAI vacia'')
           | Some content \<Rightarrow>
               if content = []
               then Inl (HttpException OpenAiInvalidResponseException ''Respuesta de OpenAI vacia'')
               else Inr \<lparr> ai_content = content, ai_tokensUsed = usage_total_tokens result,
                          ai_model = Some (response_model result) \<rparr>))"

definition promptMessages :: "string \<Rightarrow> MessageHistory list \<Rightarrow> string \<Rightarrow> MessageHistory list" where
  "promptMessages userMessage history systemPrompt =
     [\<lparr> h_role = System, h_content = systemPrompt \<rparr>] @ history @
     [\<lparr> h_role = User, h_content = trim userMessage \<rparr>]"

definition response :: "env \<Rightarrow> string \<Rightarrow> MessageHistory list \<Rightarrow> string \<Rightarrow> exn + AiResponse" where
  "response env userMessage history systemPrompt =
     (if \<not> isConfigured env then Inr (generatePlaceholderResponse env)
      else
        (case withRateLimitAndRetry env
                (callProvider env (promptMessages userMessage history systemPrompt)) None of
           Inr r \<Rightarrow> Inr r
         | Inl error \<Rightarrow>
             (let status = status_of error
              in if status = Some 429
                 then Inl (HttpException OpenAiRateLimitException
                      ''Demasiadas peticiones al asistente. Intentalo de nuevo en unos segundos.'')
                 else if status = Some 401 \<or> status = Some 403
                 then Inl (HttpException OpenAiMisconfiguredException
                      ''Configuracion de OpenAI invalida. Por favor, verifica tu API key.'')
                 else Inl (HttpException OpenAiUnavailableException
                      ''OpenAI no esta disponible. Por favor, intentalo de nuevo mas tarde.''))))"

definition contextBlock :: "string list \<Rightarrow> string" where
  "contextBlock relevantContext =
     (if length relevantContext > 0
      then [lineFeed, lineFeed] @ ''INFORMACION RELEVANTE:'' @ [lineFeed] @
           joinWith [lineFeed, lineFeed] relevantContext @
           [lineFeed, lineFeed] @ ''Usa esta informacion para responder.''
      else [])"

definition generateResponseWithRAG ::
  "env \<Rightarrow> string \<Rightarrow> MessageHistory list \<Rightarrow> string list \<Rightarrow> exn + AiResponse" where
  "generateResponseWithRAG env userMessage history relevantContext =
     response env userMessage history (baseSystemPrompt env @ contextBlock relevantContext)"

text \<open>
  A generator is modelled by what it yields before it ends or raises: the list of yielded
  values and the error, if it raises. The consumers modelled here read it to its end.
\<close>

fun deltas :: "stream_event list \<Rightarrow> string list" where
  "deltas [] = []"
| "deltas (OutputTextDelta d # events) = d # deltas events"
| "deltas (OtherEvent # events) = deltas events"

definition stream ::
  "env \<Rightarrow> string \<Rightarrow> MessageHistory list \<Rightarrow> string \<Rightarrow> string list \<times> exn option" where
  "stream env userMessage history systemPrompt =
     (if \<not> apiKey env
      then (map (\<lambda>word. word @ '' '')
                (splitOn CHR '' '' (ai_content (generatePlaceholderResponse env))), None)
      else
        (case responsesStream env (promptMessages userMessage history systemPrompt) of
           Inl error \<Rightarrow>
             ([], Some (HttpException OpenAiUnavailableException
                   ''Error al generar la respuesta en streaming. Intentalo de nuevo.''))
         | Inr (events, failure) \<Rightarrow>
             (deltas events,
              (case failure of
                 None \<Rightarrow> None
               | Some error \<Rightarrow>
                   Some (HttpException OpenAiUnavailableException
                     ''Error al generar la respuesta en streaming. Intentalo de nuevo.'')))))"

definition generateStreamResponseWithRAG ::
  "env \<Rightarrow> string \<Rightarrow> MessageHistory list \<Rightarrow> string list \<Rightarrow> string list \<times> exn option" where
  "generateStreamResponseWithRAG env userMessage history relevantContext =
     stream env userMessage history (baseSystemPrompt env @ contextBlock relevantContext)"

section \<open>ChatService\<close>

subsection \<open>The store and the conversation cache\<close>

record message_metadata =
  tokensUsed :: "nat option"
  model :: "string option"

record ChatMessage =
  msg_id :: oid
  msg_conversationId :: oid
  msg_role :: role
  msg_content :: string
  msg_metadata :: "message_metadata option"
  createdAt :: nat

record Conversation =
  conv_id :: oid
  conv_studentId :: oid
  title :: string
  isActive :: bool
  lastMessageAt :: nat
  messageCount :: nat

text \<open>
  The service's world: the two collections, the arrays it has allocated, and its
  \<^verbatim>\<open>conversationCache\<close>. A JavaScript \<^verbatim>\<open>Map<string, MessageHistory[]>\<close> holds references,
  so the cache maps a key to the address of an array and \<open>heap\<close> maps addresses (positions
  in the list) to array contents; two keys share an array when they hold the same address.
  \<open>nextId\<close> is the next ObjectId the driver generates and \<open>clock\<close> the time, which every
  write to the store advances.
\<close>

record state =
  conversations :: "Conversation list"
  chatMessages :: "ChatMessage list"
  heap :: "MessageHistory list list"
  conversationCache :: "oid \<rightharpoonup> nat"
  nextId :: oid
  clock :: nat

text \<open>
  Modelled from the spec: the Conversation schema is not under src/; a conversation is
  created with \<open>messageCount\<close> at its default, taken to be 0.
\<close>

definition defaultMessageCount :: nat where
  "defaultMessageCount = 0"

definition alloc :: "state \<Rightarrow> MessageHistory list \<Rightarrow> nat \<times> state" where
  "alloc s contents = (length (heap s), s\<lparr> heap := heap s @ [contents] \<rparr>)"

definition deref :: "state \<Rightarrow> nat \<Rightarrow> MessageHistory list" where
  "deref s a = (if a < length (heap s) then heap s ! a else [])"

definition push :: "state \<Rightarrow> nat \<Rightarrow> MessageHistory \<Rightarrow> state" where
  "push s a entry = s\<lparr> heap := (heap s)[a := deref s a @ [entry]] \<rparr>"

text \<open>
  The contents a cache key leads to, if the key is present. (The service only stores
  addresses of arrays it has allocated; a key with any other address counts as absent.)
\<close>

definition cachedWindow :: "state \<Rightarrow> oid \<Rightarrow> MessageHistory list option" where
  "cachedWindow s key =
     (case conversationCache s key of
        None \<Rightarrow> None
      | Some a \<Rightarrow> if a < length (heap s) then Some (heap s ! a) else None)"

definition createConversation :: "env \<Rightarrow> state \<Rightarrow> oid \<Rightarrow> exn + (Conversation \<times> state)" where
  "createConversation env s studentId =
     (if storeFails env ConversationCreate then Inl storeError
      else
        (let conversation =
               \<lparr> conv_id = nextId s, conv_studentId = studentId, title = ''Nueva conversacion'',
                 isActive = True, lastMessageAt = clock s, messageCount = defaultMessageCount \<rparr>
         in Inr (conversation,
                 s\<lparr> conversations := conversations s @ [conversation],
                    nextId := nextId s + 1, clock := clock s + 1 \<rparr>)))"

text \<open>\<^verbatim>\<open>findById(undefined)\<close> finds nothing.\<close>

definition findById :: "env \<Rightarrow> state \<Rightarrow> oid option \<Rightarrow> exn + Conversation option" where
  "findById env s conversationId =
     (if storeFails env ConversationFindById then Inl storeError
      else Inr (case conversationId of
                  None \<Rightarrow> None
                | Some c \<Rightarrow> find (\<lambda>cv. conv_id cv = c) (conversations s)))"

definition createMessage ::
  "env \<Rightarrow> store_call \<Rightarrow> state \<Rightarrow> oid \<Rightarrow> role \<Rightarrow> string \<Rightarrow> message_metadata option
    \<Rightarrow> exn + (ChatMessage \<times> state)" where
  "createMessage env site s conversationId r content metadata =
     (if storeFails env site then Inl storeError
      else
        (let message =
               \<lparr> msg_id = nextId s, msg_conversationId = conversationId, msg_role = r,
                 msg_content = content, msg_metadata = metadata, createdAt = clock s \<rparr>
         in Inr (message,
                 s\<lparr> chatMessages := chatMessages s @ [message],
                    nextId := nextId s + 1, clock := clock s + 1 \<rparr>)))"

text \<open>
  \<^verbatim>\<open>findByIdAndUpdate(id, {lastMessageAt: new Date(), $inc: {messageCount: 2}})\<close>; an
  \<^verbatim>\<open>_id\<close> is unique in its collection.
\<close>

definition findByIdAndUpdate :: "env \<Rightarrow> state \<Rightarrow> oid \<Rightarrow> exn + state" where
  "findByIdAndUpdate env s c =
     (if storeFails env ConversationFindByIdAndUpdate then Inl storeError
      else Inr (s\<lparr> conversations :=
                     map (\<lambda>cv. if conv_id cv = c
                               then cv\<lparr> lastMessageAt := clock s, messageCount := messageCount cv + 2 \<rparr>
                               else cv) (conversations s),
                   clock := clock s + 1 \<rparr>))"

subsection \<open>getConversationHistory\<close>

text \<open>
  \<^verbatim>\<open>find({conversationId}).sort({createdAt: 1}).limit(20)\<close>: the matching messages in
  ascending order of creation time, cut after the first 20. The result is the address of
  the array: the cached one on a hit, a newly allocated one on a miss.
\<close>

definition toHistory :: "ChatMessage \<Rightarrow> MessageHistory" where
  "toHistory m = \<lparr> h_role = msg_role m, h_content = msg_content m \<rparr>"

definition findHistoryMessages :: "state \<Rightarrow> oid \<Rightarrow> ChatMessage list" where
  "findHistoryMessages s conversationId =
     take 20 (sort_key createdAt (filter (\<lambda>m. msg_conversationId m = conversationId) (chatMessages s)))"

definition getConversationHistory :: "env \<Rightarrow> state \<Rightarrow> oid \<Rightarrow> exn + (nat \<times> state)" where
  "getConversationHistory env s conversationId =
     (case conversationCache s conversationId of
        Some a \<Rightarrow> Inr (a, s)
      | None \<Rightarrow>
          if storeFails env ChatMessageFind then Inl storeError
          else
            (let messages = findHistoryMessages s conversationId;
                 (history, s1) = alloc s (map toHistory messages)
             in Inr (history,
                     s1\<lparr> conversationCache := (conversationCache s1)(conversationId \<mapsto> history) \<rparr>)))"

subsection \<open>sendMessage\<close>

record SendMessageDto =
  dto_studentId :: oid
  dto_message :: string
  dto_conversationId :: "oid option"

record send_result =
  res_conversationId :: oid
  res_userMessage :: ChatMessage
  res_assistantMessage :: ChatMessage

definition ragOptions :: search_options where
  "ragOptions = \<lparr> opt_courseId = None, opt_limit = Some 3, opt_minScore = Some (positive (1 / 2)) \<rparr>"

text \<open>The inner \<^verbatim>\<open>try\<close> of \<^verbatim>\<open>sendMessage\<close> and \<^verbatim>\<open>streamResponse\<close> around the retrieval call.\<close>

definition retrieveContext :: "env \<Rightarrow> string \<Rightarrow> string list" where
  "retrieveContext env message =
     (case searchSimilar env message ragOptions of
        Inr searchResults \<Rightarrow> map sr_content searchResults
      | Inl error \<Rightarrow> [])"

text \<open>The outer \<^verbatim>\<open>try\<close> block of \<^verbatim>\<open>sendMessage\<close>: its outcome and the state it leaves.\<close>

definition sendMessageBody :: "env \<Rightarrow> state \<Rightarrow> SendMessageDto \<Rightarrow> (exn + send_result) \<times> state" where
  "sendMessageBody env s dto =
     (case findById env s (dto_conversationId dto) of
        Inl e \<Rightarrow> (Inl e, s)
      | Inr found \<Rightarrow>
     (case (case found of
              Some c \<Rightarrow> Inr (c, s)
            | None \<Rightarrow> createConversation env s (dto_studentId dto)) of
        Inl e \<Rightarrow> (Inl e, s)
      | Inr (conversation, s1) \<Rightarrow>
     (case createMessage env ChatMessageCreateUser s1 (conv_id conversation) User (dto_message dto) None of
        Inl e \<Rightarrow> (Inl e, s1)
      | Inr (userMsg, s2) \<Rightarrow>
     (let relevantContext = retrieveContext env (dto_message dto)
      in case getConversationHistory env s2 (conv_id conversation) of
        Inl e \<Rightarrow> (Inl e, s2)
      | Inr (history, s3) \<Rightarrow>
     (case generateResponseWithRAG env (dto_message dto) (deref s3 history) relevantContext of
        Inl e \<Rightarrow> (Inl e, s3)
      | Inr aiResponse \<Rightarrow>
     (case createMessage env ChatMessageCreateAssistant s3 (conv_id conversation) Assistant
             (ai_content aiResponse)
             (Some \<lparr> tokensUsed = ai_tokensUsed aiResponse, model = ai_model aiResponse \<rparr>) of
        Inl e \<Rightarrow> (Inl e, s3)
      | Inr (assistantMsg, s4) \<Rightarrow>
     (case findByIdAndUpdate env s4 (conv_id conversation) of
        Inl e \<Rightarrow> (Inl e, s4)
      | Inr s5 \<Rightarrow>
          (Inr \<lparr> res_conversationId = conv_id conversation, res_userMessage = userMsg,
                 res_assistantMessage = assistantMsg \<rparr>, s5))))))))"

text \<open>The \<^verbatim>\<open>catch\<close> clauses: an \<^verbatim>\<open>HttpException\<close> is rethrown, any other error is replaced.\<close>

definition rethrow :: "string \<Rightarrow> exn \<Rightarrow> exn" where
  "rethrow message error =
     (if isHttpException error then error
      else HttpException InternalServerErrorException message)"

definition sendMessage :: "env \<Rightarrow> state \<Rightarrow> SendMessageDto \<Rightarrow> (exn + send_result) \<times> state" where
  "sendMessage env s dto =
     (case sendMessageBody env s dto of
        (Inl error, s') \<Rightarrow> (Inl (rethrow ''Error al enviar el mensaje'' error), s')
      | (Inr result, s') \<Rightarrow> (Inr result, s'))"

subsection \<open>startNewConversation and deleteHistory\<close>

text \<open>An \<^verbatim>\<open>initialContext\<close> that is missing or the empty string is falsy.\<close>

definition startNewConversationBody ::
  "env \<Rightarrow> state \<Rightarrow> oid \<Rightarrow> string option \<Rightarrow> (exn + Conversation) \<times> state" where
  "startNewConversationBody env s studentId initialContext =
     (case createConversation env s studentId of
        Inl e \<Rightarrow> (Inl e, s)
      | Inr (conversation, s1) \<Rightarrow>
          (let (history, s2) = alloc s1 [];
               s3 = (case initialContext of
                       None \<Rightarrow> s2
                     | Some c \<Rightarrow>
                         if c = [] then s2
                         else push s2 history \<lparr> h_role = System, h_content = c \<rparr>);
               s4 = s3\<lparr> conversationCache := (conversationCache s3)(conv_id conversation \<mapsto> history) \<rparr>
           in if storeFails env ConversationUpdateMany then (Inl storeError, s4)
              else (Inr conversation,
                    s4\<lparr> conversations :=
                         map (\<lambda>cv. if conv_studentId cv = studentId \<and> conv_id cv \<noteq> conv_id conversation
                                   then cv\<lparr> isActive := False \<rparr> else cv)
                             (conversations s4) \<rparr>)))"

definition startNewConversation ::
  "env \<Rightarrow> state \<Rightarrow> oid \<Rightarrow> string option \<Rightarrow> (exn + Conversation) \<times> state" where
  "startNewConversation env s studentId initialContext =
     (case startNewConversationBody env s studentId initialContext of
        (Inl error, s') \<Rightarrow> (Inl (rethrow ''Error al crear la conversacion'' error), s')
      | (Inr conversation, s') \<Rightarrow> (Inr conversation, s'))"

text \<open>\<^verbatim>\<open>deleteHistory\<close> returns \<^verbatim>\<open>null\<close> (here \<open>None\<close>) for an unknown conversation.\<close>

definition deleteHistoryBody :: "env \<Rightarrow> state \<Rightarrow> oid \<Rightarrow> oid \<Rightarrow> (exn + nat option) \<times> state" where
  "deleteHistoryBody env s studentId conversationId =
     (if storeFails env ConversationFindOne then (Inl storeError, s)
      else
        (case find (\<lambda>cv. conv_id cv = conversationId \<and> conv_studentId cv = studentId)
                   (conversations s) of
           None \<Rightarrow> (Inr None, s)
         | Some conversation \<Rightarrow>
             if storeFails env ChatMessageDeleteMany then (Inl storeError, s)
             else
               (let deletedCount =
                      length (filter (\<lambda>m. msg_conversationId m = conv_id conversation) (chatMessages s));
                    s1 = s\<lparr> chatMessages :=
                              filter (\<lambda>m. msg_conversationId m \<noteq> conv_id conversation) (chatMessages s) \<rparr>
                in if storeFails env ConversationFindByIdAndDelete then (Inl storeError, s1)
                   else
                     (let s2 = s1\<lparr> conversations :=
                                     filter (\<lambda>cv. conv_id cv \<noteq> conv_id conversation) (conversations s1) \<rparr>;
                          s3 = s2\<lparr> conversationCache := (conversationCache s2)(conversationId := None) \<rparr>
                      in (Inr (Some deletedCount), s3)))))"

definition deleteHistory :: "env \<Rightarrow> state \<Rightarrow> oid \<Rightarrow> oid \<Rightarrow> (exn + nat option) \<times> state" where
  "deleteHistory env s studentId conversationId =
     (case deleteHistoryBody env s studentId conversationId of
        (Inl error, s') \<Rightarrow> (Inl (rethrow ''Error al eliminar el historial'' error), s')
      | (Inr result, s') \<Rightarrow> (Inr result, s'))"

subsection \<open>streamResponse and the controller's streamMessage\<close>

datatype stream_frame =
    ConversationIdFrame oid
  | TokenFrame string
  | DoneFrame oid
  | ErrorFrame string

text \<open>
  \<^verbatim>\<open>streamResponse\<close> is a generator: the model gives the events it yields, the error it
  raises (if any) and the state it leaves. It is written in two parts. The first part runs
  up to the loading of the history: it either raises, after the events yielded so far, or
  reaches the generation step with the conversation, the address of the history array and
  the state.
\<close>

type_synonym stream_run = "(stream_frame list \<times> exn option) \<times> state"

definition streamResponseSetup ::
  "env \<Rightarrow> state \<Rightarrow> SendMessageDto \<Rightarrow> stream_run + (Conversation \<times> nat \<times> state)" where
  "streamResponseSetup env s dto =
     (case (case dto_conversationId dto of
              Some c \<Rightarrow>
                (case findById env s (Some c) of
                   Inl e \<Rightarrow> Inl e
                 | Inr found \<Rightarrow> Inr (found, s))
            | None \<Rightarrow>
                (case createConversation env s (dto_studentId dto) of
                   Inl e \<Rightarrow> Inl e
                 | Inr (c, s0) \<Rightarrow> Inr (Some c, s0))) of
        Inl e \<Rightarrow> Inl (([], Some e), s)
      | Inr (found, s0) \<Rightarrow>
     (case (case found of
              Some c \<Rightarrow> Inr (c, s0)
            | None \<Rightarrow> createConversation env s0 (dto_studentId dto)) of
        Inl e \<Rightarrow> Inl (([], Some e), s0)
      | Inr (conversation, s1) \<Rightarrow>
     (let first = [ConversationIdFrame (conv_id conversation)]
      in case createMessage env ChatMessageCreateUser s1 (conv_id conversation) User (dto_message dto) None of
        Inl e \<Rightarrow> Inl ((first, Some e), s1)
      | Inr (userMsg, s2) \<Rightarrow>
     (case getConversationHistory env s2 (conv_id conversation) of
        Inl e \<Rightarrow> Inl ((first, Some e), s2)
      | Inr (history, s3) \<Rightarrow> Inr (conversation, history, s3)))))"

text \<open>
  The second part: the retrieval, the loop over the fragments of the generation stream,
  and the persistence that follows the loop when the stream has ended without raising.
\<close>

definition streamResponseGenerate ::
  "env \<Rightarrow> state \<Rightarrow> SendMessageDto \<Rightarrow> Conversation \<Rightarrow> nat \<Rightarrow> stream_run" where
  "streamResponseGenerate env s3 dto conversation history =
     (let relevantContext = retrieveContext env (dto_message dto);
          (tokens, failure) =
             generateStreamResponseWithRAG env (dto_message dto) (deref s3 history) relevantContext;
          emitted = [ConversationIdFrame (conv_id conversation)] @ map TokenFrame tokens;
          fullContent = concat tokens
      in case failure of
        Some e \<Rightarrow> ((emitted, Some e), s3)
      | None \<Rightarrow>
     (case createMessage env ChatMessageCreateAssistant s3 (conv_id conversation) Assistant fullContent
             (Some \<lparr> tokensUsed = None, model = Some ''stream'' \<rparr>) of
        Inl e \<Rightarrow> ((emitted, Some e), s3)
      | Inr (assistantMsg, s4) \<Rightarrow>
     (case findByIdAndUpdate env s4 (conv_id conversation) of
        Inl e \<Rightarrow> ((emitted, Some e), s4)
      | Inr s5 \<Rightarrow> ((emitted @ [DoneFrame (msg_id assistantMsg)], None), s5))))"

definition streamResponse :: "env \<Rightarrow> state \<Rightarrow> SendMessageDto \<Rightarrow> stream_run" where
  "streamResponse env s dto =
     (case streamResponseSetup env s dto of
        Inl run \<Rightarrow> run
      | Inr (conversation, history, s3) \<Rightarrow> streamResponseGenerate env s3 dto conversation history)"

text \<open>
  \<^verbatim>\<open>ChatController.streamMessage\<close> writes one frame per event and, when the generator
  raises, one frame with the error's message; then it ends the response.
\<close>

definition streamMessage :: "env \<Rightarrow> state \<Rightarrow> SendMessageDto \<Rightarrow> stream_frame list \<times> state" where
  "streamMessage env s dto =
     (case streamResponse env s dto of
        ((events, None), s') \<Rightarrow> (events, s')
      | ((events, Some error), s') \<Rightarrow> (events @ [ErrorFrame (message_of error)], s'))"

section \<open>Concrete inputs\<close>

text \<open>
  An environment in which every external call succeeds: the store never rejects, the
  embedding of any text is \<open>[1, 0]\<close>, the provider answers, and the scheduler runs
  every job. The examples below change single fields of it.
\<close>

definition quietEnv :: env where
  "quietEnv =
     \<lparr> apiKey = True, storeFails = (\<lambda>c. False), knowledgeChunks = [],
       embeddingsCreate = (\<lambda>t. Inr ([positive 1, positive 0], 1)),
       responsesCreate =
         (\<lambda>input n. Inr \<lparr> output_text = Some ''ok'', usage_total_tokens = Some 5,
                            response_model = ''gpt-4'' \<rparr>),
       responsesStream =
         (\<lambda>input. Inr ([OutputTextDelta ''o'', OtherEvent, OutputTextDelta ''k''], None)),
       limiterRejection = None, baseSystemPrompt = ''system'',
       placeholderReply = ''canned reply'' \<rparr>"

text \<open>
  Two chunks with the same embedding, stored with the higher \<open>chunkIndex\<close> first (the
  chunks of one batch are created concurrently, so the store's order need not follow
  \<open>chunkIndex\<close>).
\<close>

definition tieChunkB :: KnowledgeChunk where
  "tieChunkB = \<lparr> chunk_courseId = 7, chunk_content = ''B'', chunk_embedding = [positive 1, positive 0],
                 chunkIndex = 1, chunk_meta = None \<rparr>"

definition tieChunkA :: KnowledgeChunk where
  "tieChunkA = \<lparr> chunk_courseId = 7, chunk_content = ''A'', chunk_embedding = [positive 1, positive 0],
                 chunkIndex = 0, chunk_meta = None \<rparr>"

definition tieEnv :: env where
  "tieEnv = quietEnv\<lparr> knowledgeChunks := [tieChunkB, tieChunkA] \<rparr>"

text \<open>
  The scheduler's queue is full: it drops the job. The error the scheduler rejects with
  does not set its own name, so its \<^verbatim>\<open>name\<close> is \<^verbatim>\<open>Error\<close>, and it has no status.
\<close>

definition overflowEnv :: env where
  "overflowEnv =
     quietEnv\<lparr> limiterRejection :=
       Some (JsError ''Error'' ''This job has been dropped by Bottleneck'' None) \<rparr>"

text \<open>
  A conversation (id 1) with 21 persisted messages, the \<open>i\<close>-th created at time \<open>i\<close>, and
  an empty cache.
\<close>

definition nthMessage :: "nat \<Rightarrow> ChatMessage" where
  "nthMessage i =
     \<lparr> msg_id = 100 + i, msg_conversationId = 1, msg_role = User,
       msg_content = replicate i CHR ''m'', msg_metadata = None, createdAt = i \<rparr>"

definition longConversation :: state where
  "longConversation =
     \<lparr> conversations =
         [\<lparr> conv_id = 1, conv_studentId = 0, title = ''Nueva conversacion'', isActive = True,
            lastMessageAt = 21, messageCount = 21 \<rparr>],
       chatMessages = map nthMessage [1..<22],
       heap = [], conversationCache = Map.empty, nextId = 200, clock = 22 \<rparr>"

definition emptyState :: state where
  "emptyState =
     \<lparr> conversations = [], chatMessages = [], heap = [], conversationCache = Map.empty,
       nextId = 0, clock = 0 \<rparr>"

text \<open>Two conversations of student 3, both with a cached window, each in its own array.\<close>

definition twoCached :: state where
  "twoCached =
     \<lparr> conversations =
         [\<lparr> conv_id = 4, conv_studentId = 3, title = ''Nueva conversacion'', isActive = False,
            lastMessageAt = 0, messageCount = 0 \<rparr>,
          \<lparr> conv_id = 5, conv_studentId = 3, title = ''Nueva conversacion'', isActive = True,
            lastMessageAt = 1, messageCount = 0 \<rparr>],
       chatMessages = [],
       heap = [[\<lparr> h_role = System, h_content = ''first'' \<rparr>],
               [\<lparr> h_role = System, h_content = ''second'' \<rparr>]],
       conversationCache = [4 \<mapsto> 0, 5 \<mapsto> 1], nextId = 6, clock = 2 \<rparr>"

definition noOptions :: search_options where
  "noOptions = \<lparr> opt_courseId = None, opt_limit = None, opt_minScore = None \<rparr>"

text \<open>
  Three chunks of course 7 and one of course 8. Against the query embedding \<open>[1, 0]\<close>
  their scores are 0, the double nearest to 3/5, 1 and 1.
\<close>

definition rankChunk :: "oid \<Rightarrow> string \<Rightarrow> number list \<Rightarrow> nat \<Rightarrow> KnowledgeChunk" where
  "rankChunk course content emb i =
     \<lparr> chunk_courseId = course, chunk_content = content, chunk_embedding = emb,
       chunkIndex = i, chunk_meta = None \<rparr>"



text \<open>A first message of student 3, and one addressed to the cached conversation 5.\<close>

definition hiDto :: SendMessageDto where
  "hiDto = \<lparr> dto_studentId = 3, dto_message = ''Hola'', dto_conversationId = None \<rparr>"

definition dtoFive :: SendMessageDto where
  "dtoFive = \<lparr> dto_studentId = 3, dto_message = ''Hola'', dto_conversationId = Some 5 \<rparr>"

text \<open>The store rejects every call.\<close>

definition storeDownEnv :: env where
  "storeDownEnv = quietEnv\<lparr> storeFails := (\<lambda>site. True) \<rparr>"

text \<open>The provider's stream raises after two text fragments.\<close>

definition brokenStreamEnv :: env where
  "brokenStreamEnv =
     quietEnv\<lparr> responsesStream :=
       (\<lambda>input. Inr ([OutputTextDelta ''par'', OtherEvent, OutputTextDelta ''tial''],
                      Some (JsError ''Error'' ''socket hang up'' None))) \<rparr>"

text \<open>The state \<^verbatim>\<open>streamResponse\<close> reaches from the empty state before it generates.\<close>

definition conversationZero :: Conversation where
  "conversationZero =
     \<lparr> conv_id = 0, conv_studentId = 3, title = ''Nueva conversacion'', isActive = True,
       lastMessageAt = 0, messageCount = 0 \<rparr>"

definition afterSetup :: state where
  "afterSetup =
     \<lparr> conversations = [conversationZero],
       chatMessages =
         [\<lparr> msg_id = 1, msg_conversationId = 0, msg_role = User, msg_content = ''Hola'',
            msg_metadata = None, createdAt = 1 \<rparr>],
       heap = [[\<lparr> h_role = User, h_content = ''Hola'' \<rparr>]],
       conversationCache = [0 \<mapsto> 0], nextId = 2, clock = 2 \<rparr>"

text \<open>A stored chunk whose embedding has three components, while queries embed to two.\<close>

definition mismatchEnv :: env where
  "mismatchEnv =
     quietEnv\<lparr> knowledgeChunks :=
       [rankChunk 7 ''other model'' [positive 1, positive 0, positive 0] 0] \<rparr>"

text \<open>The embedding capability is unreachable.\<close>

definition noEmbeddingEnv :: env where
  "noEmbeddingEnv =
     tieEnv\<lparr> embeddingsCreate := (\<lambda>t. Inl (JsError ''Error'' ''connect ECONNREFUSED'' None)) \<rparr>"

text \<open>The cached window of conversation 5, and what a send to that conversation returns.\<close>

definition secondWindow :: "MessageHistory list" where
  "secondWindow = [\<lparr> h_role = System, h_content = ''second'' \<rparr>]"

definition replyFive :: send_result where
  "replyFive =
     \<lparr> res_conversationId = 5,
       res_userMessage =
         \<lparr> msg_id = 6, msg_conversationId = 5, msg_role = User, msg_content = ''Hola'',
           msg_metadata = None, createdAt = 2 \<rparr>,
       res_assistantMessage =
         \<lparr> msg_id = 7, msg_conversationId = 5, msg_role = Assistant, msg_content = ''ok'',
           msg_metadata = Some \<lparr> tokensUsed = Some 5, model = Some ''gpt-4'' \<rparr>,
           createdAt = 3 \<rparr> \<rparr>"

section \<open>Views used to state the properties\<close>

text \<open>The window a context load returns, by value.\<close>

definition contextWindow :: "env \<Rightarrow> state \<Rightarrow> oid \<Rightarrow> exn + MessageHistory list" where
  "contextWindow env s conversationId =
     (case getConversationHistory env s conversationId of
        Inl e \<Rightarrow> Inl e
      | Inr (a, s') \<Rightarrow> Inr (deref s' a))"

text \<open>The id the driver generates next is not in use yet.\<close>

definition nextIdFresh :: "state \<Rightarrow> bool" where
  "nextIdFresh s =
     ((\<forall>cv\<in>set (conversations s). conv_id cv \<noteq> nextId s) \<and>
      (\<forall>m\<in>set (chatMessages s). msg_conversationId m \<noteq> nextId s) \<and>
      conversationCache s (nextId s) = None)"



text \<open>What \<^verbatim>\<open>startNewConversation\<close> seeds the new cache entry with.\<close>

definition seedWindow :: "string option \<Rightarrow> MessageHistory list" where
  "seedWindow initialContext =
     (case initialContext of
        None \<Rightarrow> []
      | Some c \<Rightarrow> if c = [] then [] else [\<lparr> h_role = System, h_content = c \<rparr>])"

text \<open>
  A send or stream request together with the environment it runs in, and the state a
  sequence of such requests leaves.
\<close>

datatype chat_request = SendRequest env SendMessageDto | StreamRequest env SendMessageDto

fun serve :: "state \<Rightarrow> chat_request \<Rightarrow> state" where
  "serve s (SendRequest env dto) = snd (sendMessage env s dto)"
| "serve s (StreamRequest env dto) = snd (streamMessage env s dto)"

fun isTerminalFrame :: "stream_frame \<Rightarrow> bool" where
  "isTerminalFrame (DoneFrame messageId) = True"
| "isTerminalFrame (ErrorFrame message) = True"
| "isTerminalFrame (ConversationIdFrame c) = False"
| "isTerminalFrame (TokenFrame t) = False"

fun isConversationIdFrame :: "stream_frame \<Rightarrow> bool" where
  "isConversationIdFrame (ConversationIdFrame c) = True"
| "isConversationIdFrame (TokenFrame t) = False"
| "isConversationIdFrame (DoneFrame messageId) = False"
| "isConversationIdFrame (ErrorFrame message) = False"

text \<open>
  The same environment with an empty knowledge base whose store answers: every search in
  it returns no result.
\<close>

definition emptyKnowledge :: "env \<Rightarrow> env" where
  "emptyKnowledge env =
     env\<lparr> knowledgeChunks := [], storeFails := (storeFails env)(KnowledgeChunkFind := False) \<rparr>"

section \<open>Properties of cosineSimilarity\<close>

subsection \<open>Rounding\<close>

text \<open>The exponent of a positive real is the floor of its binary logarithm.\<close>

lemma two_powi_pos [simp]: "0 < (2::real) powi k"
  by (simp add: power_int_def)

lemma two_powr_powi: "(2::real) powr (of_int k) = 2 powi k"
  by (simp add: powr_int power_int_def power_one_over)

lemma floor_log2_eq:
  assumes "2 powi e \<le> x" "x < 2 powi (e + 1)"
  shows "\<lfloor>log 2 x\<rfloor> = e"
proof -
  have pos: "0 < x" using assms(1) two_powi_pos [of e] by linarith
  have "2 powr (of_int e) \<le> x \<and> x < 2 powr (of_int (e + 1))"
    using assms by (simp only: two_powr_powi) 
  then show ?thesis
    using pos by (simp add: floor_log_eq_powr_iff)
qed

lemma floor_log2_bounds:
  assumes "0 < x"
  shows "2 powi \<lfloor>log 2 x\<rfloor> \<le> x \<and> x < 2 powi (\<lfloor>log 2 x\<rfloor> + 1)"
proof -
  have "2 powr (of_int \<lfloor>log 2 x\<rfloor>) \<le> x \<and> x < 2 powr (of_int \<lfloor>log 2 x\<rfloor> + 1)"
    using floor_log_eq_powr_iff [of x 2 "\<lfloor>log 2 x\<rfloor>"] assms by simp
  then show ?thesis
    using two_powr_powi [of "\<lfloor>log 2 x\<rfloor>"] two_powr_powi [of "\<lfloor>log 2 x\<rfloor> + 1"] by simp
qed

text \<open>\<open>roundHalfEven\<close> gives a nearest integer, and is monotone at the integers.\<close>

lemma roundHalfEven_close: "\<bar>of_int (roundHalfEven y) - y\<bar> \<le> 1 / 2"
  unfolding roundHalfEven_def Let_def by (auto; linarith)

lemma roundHalfEven_int [simp]: "roundHalfEven (of_int n) = n"
  by (simp add: roundHalfEven_def)

lemma roundHalfEven_eqI:
  assumes "\<bar>y - of_int n\<bar> < 1 / 2"
  shows "roundHalfEven y = n"
proof -
  from assms have lo: "of_int n - 1 / 2 < y" and hi: "y < of_int n + 1 / 2"
    by linarith+
  show ?thesis
  proof (cases "of_int n \<le> y")
    case True
    with hi have f: "\<lfloor>y\<rfloor> = n" by (simp add: floor_eq_iff)
    with hi show ?thesis by (simp add: roundHalfEven_def Let_def)
  next
    case False
    with lo have f: "\<lfloor>y\<rfloor> = n - 1" by (simp add: floor_eq_iff)
    with lo show ?thesis by (simp add: roundHalfEven_def Let_def)
  qed
qed

lemma roundHalfEven_ge: "of_int n \<le> y \<Longrightarrow> n \<le> roundHalfEven y"
  unfolding roundHalfEven_def Let_def by (auto simp: le_floor_iff; linarith)

lemma roundHalfEven_le: "y \<le> of_int n \<Longrightarrow> roundHalfEven y \<le> n"
  unfolding roundHalfEven_def Let_def by (auto; linarith)

lemma roundHalfEven_le_half: "y < of_int n + 1 / 2 \<Longrightarrow> roundHalfEven y \<le> n"
  unfolding roundHalfEven_def Let_def by (auto; linarith)


text \<open>The exponent in the normal and in the subnormal range, and what it says of \<open>nearest\<close>.\<close>

lemma exponentOf_normal:
  assumes "2 powi e \<le> x" "x < 2 powi (e + 1)" "- 1022 \<le> e"
  shows "exponentOf x = e"
  using floor_log2_eq [OF assms(1,2)] assms(3) by (simp add: exponentOf_def)

lemma exponentOf_subnormal:
  assumes "0 < x" "x < 2 powi (- 1022)"
  shows "exponentOf x = - 1022"
proof -
  have "\<lfloor>log 2 x\<rfloor> < - 1022"
  proof (rule ccontr)
    assume "\<not> \<lfloor>log 2 x\<rfloor> < - 1022"
    then have "(2::real) powi (- 1022) \<le> 2 powi \<lfloor>log 2 x\<rfloor>"
      by (intro power_int_increasing) auto
    with floor_log2_bounds [OF assms(1)] assms(2) show False by linarith
  qed
  then show ?thesis by (simp add: exponentOf_def)
qed

lemma exponentOf_ge: "- 1022 \<le> exponentOf x"
  by (simp add: exponentOf_def)

lemma nearest_eqI:
  assumes "exponentOf x = k" "\<bar>x / 2 powi (k - 52) - of_int n\<bar> < 1 / 2"
  shows "nearest x = of_int n * 2 powi (k - 52)"
  using roundHalfEven_eqI [OF assms(2)] assms(1) by (simp add: nearest_def Let_def)

lemma nearest_exact:
  assumes "exponentOf x = k" "x = of_int n * 2 powi (k - 52)"
  shows "nearest x = x"
  using assms by (simp add: nearest_def Let_def)


lemma exponentOf_bounds:
  assumes "2 powi (- 1022) \<le> x"
  shows "2 powi exponentOf x \<le> x \<and> x < 2 powi (exponentOf x + 1)"
proof -
  have pos: "0 < x" using assms two_powi_pos [of "- 1022"] by linarith
  have "- 1022 \<le> \<lfloor>log 2 x\<rfloor>"
  proof (rule ccontr)
    assume "\<not> - 1022 \<le> \<lfloor>log 2 x\<rfloor>"
    then have "\<lfloor>log 2 x\<rfloor> + 1 \<le> - 1022" by linarith
    then have "(2::real) powi (\<lfloor>log 2 x\<rfloor> + 1) \<le> 2 powi (- 1022)"
      by (rule power_int_increasing) simp
    with floor_log2_bounds [OF pos] assms show False by linarith
  qed
  then have "exponentOf x = \<lfloor>log 2 x\<rfloor>" by (simp add: exponentOf_def)
  with floor_log2_bounds [OF pos] show ?thesis by simp
qed

lemma exponentOf_upper:
  assumes "0 < x"
  shows "x < 2 powi (exponentOf x + 1)"
proof -
  have "(2::real) powi (\<lfloor>log 2 x\<rfloor> + 1) \<le> 2 powi (exponentOf x + 1)"
    by (rule power_int_increasing) (simp_all add: exponentOf_def)
  with floor_log2_bounds [OF assms] show ?thesis by linarith
qed

lemma two_powi_add: "(2::real) powi (a + b) = 2 powi a * 2 powi b"
  by (simp add: power_int_add)

lemma two_powi_shift: "(2::real) powi k = 2 ^ n * 2 powi (k - int n)"
  using two_powi_add [of "int n" "k - int n"] by simp

lemma unit_split: "(2::real) powi (e + 1) = 2 ^ 53 * 2 powi (e - 52)"
  using two_powi_shift [of "e + 1" 53] by simp

lemma unit_split_low: "(2::real) powi e = 2 ^ 52 * 2 powi (e - 52)"
  using two_powi_shift [of e 52] by simp

text \<open>
  In the normal range rounding moves a value by at most half a unit, which is at most
  \<open>2 ^ - 53\<close> times the value.
\<close>

lemma nearest_error:
  assumes "2 powi (- 1022) \<le> x"
  shows "\<bar>nearest x - x\<bar> \<le> x * 2 powi (- 53)"
proof -
  define q :: real where "q = 2 powi (exponentOf x - 52)"
  have q: "0 < q" by (simp add: q_def)
  have "\<bar>of_int (roundHalfEven (x / q)) - x / q\<bar> \<le> 1 / 2" by (rule roundHalfEven_close)
  then have "\<bar>of_int (roundHalfEven (x / q)) - x / q\<bar> * q \<le> 1 / 2 * q"
    using q by (intro mult_right_mono) auto
  moreover have "\<bar>of_int (roundHalfEven (x / q)) - x / q\<bar> * q =
      \<bar>(of_int (roundHalfEven (x / q)) - x / q) * q\<bar>"
    using q by (simp add: abs_mult)
  moreover have "(of_int (roundHalfEven (x / q)) - x / q) * q = of_int (roundHalfEven (x / q)) * q - x"
    using q by (simp add: left_diff_distrib)
  ultimately have "\<bar>of_int (roundHalfEven (x / q)) * q - x\<bar> \<le> q / 2"
    by simp
  then have "\<bar>nearest x - x\<bar> \<le> q / 2" by (simp add: nearest_def q_def Let_def)
  also have "q / 2 = 2 powi exponentOf x * 2 powi (- 53)"
  proof -
    have "2 powi exponentOf x * (2::real) powi (- 53) = 2 powi (exponentOf x - 52) * 2 powi (- 1)"
      using two_powi_add [of "exponentOf x" "- 53"] two_powi_add [of "exponentOf x - 52" "- 1"]
      by simp
    then show ?thesis by (simp add: q_def)
  qed
  also have "\<dots> \<le> x * 2 powi (- 53)"
    using exponentOf_bounds [OF assms] by (intro mult_right_mono) auto
  finally show ?thesis .
qed

text \<open>Rounding does not cross a multiple of the unit, nor a power of two.\<close>

lemma nearest_le_unit:
  assumes "x \<le> of_int n * 2 powi (exponentOf x - 52)"
  shows "nearest x \<le> of_int n * 2 powi (exponentOf x - 52)"
proof -
  have "x / 2 powi (exponentOf x - 52) \<le> of_int n"
    using assms by (simp add: pos_divide_le_eq)
  then have "roundHalfEven (x / 2 powi (exponentOf x - 52)) \<le> n" by (rule roundHalfEven_le)
  then show ?thesis by (simp add: nearest_def Let_def)
qed

lemma nearest_ge_unit:
  assumes "of_int n * 2 powi (exponentOf x - 52) \<le> x"
  shows "of_int n * 2 powi (exponentOf x - 52) \<le> nearest x"
proof -
  have "of_int n \<le> x / 2 powi (exponentOf x - 52)"
    using assms by (simp add: pos_le_divide_eq)
  then have "n \<le> roundHalfEven (x / 2 powi (exponentOf x - 52))" by (rule roundHalfEven_ge)
  then show ?thesis by (simp add: nearest_def Let_def)
qed

lemma nearest_le_half:
  assumes "x < (of_int n + 1 / 2) * 2 powi (exponentOf x - 52)"
  shows "nearest x \<le> of_int n * 2 powi (exponentOf x - 52)"
proof -
  have "x / 2 powi (exponentOf x - 52) < of_int n + 1 / 2"
    using assms by (simp add: pos_divide_less_eq)
  then have "roundHalfEven (x / 2 powi (exponentOf x - 52)) \<le> n" by (rule roundHalfEven_le_half)
  then show ?thesis by (simp add: nearest_def Let_def)
qed

lemma nearest_ge_power:
  assumes "2 powi k \<le> x" "- 1022 \<le> k"
  shows "2 powi k \<le> nearest x"
proof -
  have low: "2 powi (- 1022) \<le> x"
  proof -
    have "(2::real) powi (- 1022) \<le> 2 powi k" using assms(2) by (rule power_int_increasing) simp
    with assms(1) show ?thesis by linarith
  qed
  note b = exponentOf_bounds [OF low]
  have "k \<le> exponentOf x"
  proof (rule ccontr)
    assume "\<not> k \<le> exponentOf x"
    then have "exponentOf x + 1 \<le> k" by linarith
    then have "(2::real) powi (exponentOf x + 1) \<le> 2 powi k"
      by (rule power_int_increasing) simp
    with b assms(1) show False by linarith
  qed
  then have "(2::real) powi k \<le> 2 powi exponentOf x" by (rule power_int_increasing) simp
  also have "\<dots> = of_int (2 ^ 52) * 2 powi (exponentOf x - 52)"
    using unit_split_low [of "exponentOf x"] by simp
  also have "\<dots> \<le> nearest x"
    using b unit_split_low [of "exponentOf x"] by (intro nearest_ge_unit) simp
  finally show ?thesis .
qed

lemma nearest_le_next_power:
  assumes "0 < x"
  shows "nearest x \<le> 2 powi (exponentOf x + 1)"
proof -
  have "nearest x \<le> of_int (2 ^ 53) * 2 powi (exponentOf x - 52)"
    using exponentOf_upper [OF assms] unit_split [of "exponentOf x"]
    by (intro nearest_le_unit) simp
  then show ?thesis using unit_split [of "exponentOf x"] by simp
qed

text \<open>Below the top of a binade, rounding stays within the binade, or reaches its last value.\<close>

lemma nearest_below_power:
  assumes "2 powi (- 1022) \<le> x" "x < 2 powi k - 2 powi (k - 54)"
  shows "nearest x \<le> 2 powi k - 2 powi (k - 53)"
proof -
  note b = exponentOf_bounds [OF assms(1)]
  have pos: "0 < x" using assms(1) two_powi_pos [of "- 1022"] by linarith
  have ek: "exponentOf x + 1 \<le> k"
  proof (rule ccontr)
    assume "\<not> exponentOf x + 1 \<le> k"
    then have "k \<le> exponentOf x" by linarith
    then have "(2::real) powi k \<le> 2 powi exponentOf x" by (rule power_int_increasing) simp
    with b assms(2) two_powi_pos [of "k - 54"] show False by linarith
  qed
  show ?thesis
  proof (cases "exponentOf x + 1 = k")
    case True
    then have e: "exponentOf x - 52 = k - 53" by simp
    have k1: "(2::real) powi k = 2 ^ 53 * 2 powi (k - 53)"
      using two_powi_shift [of k 53] by simp
    have k2: "(2::real) powi (k - 53) = 2 * 2 powi (k - 54)"
      using two_powi_shift [of "k - 53" 1] by simp
    have k3: "(2::real) powi k = 2 ^ 54 * 2 powi (k - 54)"
      using two_powi_shift [of k 54] by simp
    have "(of_int (2 ^ 53 - 1) + 1 / 2) * (2::real) powi (k - 53) = 2 powi k - 2 powi (k - 54)"
      unfolding k3 k2 by simp
    then have "x < (of_int (2 ^ 53 - 1) + 1 / 2) * 2 powi (exponentOf x - 52)"
      using assms(2) unfolding e by linarith
    then have "nearest x \<le> of_int (2 ^ 53 - 1) * 2 powi (exponentOf x - 52)"
      by (rule nearest_le_half)
    also have "\<dots> = 2 powi k - 2 powi (k - 53)"
      unfolding e k1 by (simp add: algebra_simps)
    finally show ?thesis .
  next
    case False
    with ek have "exponentOf x + 1 \<le> k - 1" by simp
    then have "(2::real) powi (exponentOf x + 1) \<le> 2 powi (k - 1)"
      by (rule power_int_increasing) simp
    with nearest_le_next_power [OF pos] have "nearest x \<le> 2 powi (k - 1)" by linarith
    moreover have "(2::real) powi k = 2 * 2 powi (k - 1)"
      using two_powi_shift [of k 1] by simp
    moreover have "(2::real) powi (k - 53) \<le> 2 powi (k - 1)"
      by (rule power_int_increasing) simp_all
    ultimately show ?thesis by linarith
  qed
qed

text \<open>
  The three roundings behind the similarity of a vector with itself, for a sum of squares
  \<open>s\<close> in the normal range: the root \<open>r\<close> of \<open>s\<close>, the product \<open>m\<close> of \<open>r\<close> with itself and
  the quotient \<open>t\<close> of \<open>s\<close> by \<open>m\<close>. Each has a relative error of at most \<open>2 ^ - 53\<close>, and
  none leaves the range of doubles.
\<close>

lemma self_similarity_rounding:
  assumes lo: "2 powi (- 1022) \<le> s" and hi: "s \<le> 2 ^ 1024 - 2 ^ 971"
  defines "r \<equiv> nearest (sqrt s)"
  defines "m \<equiv> nearest (r * r)"
  defines "t \<equiv> nearest (s / m)"
  shows "0 < r \<and> r < 2 ^ 1024 \<and> 0 < m \<and> m < 2 ^ 1024 \<and> 0 < t \<and> t < 2 ^ 1024 \<and>
         \<bar>t - 1\<bar> \<le> 2 powi (- 50)"
proof -
  define u :: real where "u = 2 powi (- 53)"
  have u: "0 < u" "u \<le> 1 / 16" by (simp_all add: u_def power_int_def power_one_over)
  have spos: "0 < s" using lo two_powi_pos [of "- 1022"] by linarith
  define x where "x = sqrt s"
  have xx: "x * x = s" using spos by (simp add: x_def)
  have xpos: "0 < x" using spos by (simp add: x_def)
  have xlo: "2 powi (- 511) \<le> x"
  proof -
    have "(2 powi (- 511))\<^sup>2 = (2::real) powi (- 1022)"
      using two_powi_add [of "- 511" "- 511"] by (simp add: power2_eq_square)
    with lo have "(2 powi (- 511))\<^sup>2 \<le> s" by simp
    then show ?thesis unfolding x_def by (rule real_le_rsqrt)
  qed
  have xlow: "2 powi (- 1022) \<le> x"
  proof -
    have "(2::real) powi (- 1022) \<le> 2 powi (- 511)" by (rule power_int_increasing) simp_all
    with xlo show ?thesis by linarith
  qed
  have xhi: "x < 2 powi 512 - 2 powi (512 - 54)"
  proof -
    have "s < (2 ^ 512 - 2 ^ 458)\<^sup>2" using hi by (simp add: power2_eq_square algebra_simps)
    then have "sqrt s < 2 ^ 512 - 2 ^ 458" by (intro real_less_lsqrt) simp_all
    then show ?thesis by (simp add: x_def)
  qed
  have rerr: "\<bar>r - x\<bar> \<le> x * u" unfolding r_def x_def [symmetric] u_def by (rule nearest_error [OF xlow])
  have rlo: "2 powi (- 511) \<le> r" unfolding r_def x_def [symmetric] by (rule nearest_ge_power [OF xlo]) simp
  have rhi: "r \<le> 2 powi 512 - 2 powi (512 - 53)"
    unfolding r_def x_def [symmetric] by (rule nearest_below_power [OF xlow xhi])
  have rpos: "0 < r" using rlo two_powi_pos [of "- 511"] by linarith
  define p where "p = r * r"
  have plo: "2 powi (- 1022) \<le> p"
  proof -
    have "(2::real) powi (- 511) * 2 powi (- 511) \<le> r * r"
      using rlo by (intro mult_mono) simp_all
    then show ?thesis using two_powi_add [of "- 511" "- 511"] by (simp add: p_def)
  qed
  have phi: "p < 2 powi 1024 - 2 powi (1024 - 54)"
  proof -
    have "r * r \<le> (2 powi 512 - 2 powi (512 - 53)) * (2 powi 512 - 2 powi (512 - 53))"
      using rhi rpos by (intro mult_mono) simp_all
    also have "\<dots> < 2 powi 1024 - 2 powi (1024 - 54)" by simp
    finally show ?thesis by (simp add: p_def)
  qed
  have merr: "\<bar>m - p\<bar> \<le> p * u" unfolding m_def p_def [symmetric] u_def by (rule nearest_error [OF plo])
  have mlo: "2 powi (- 1022) \<le> m" unfolding m_def p_def [symmetric] by (rule nearest_ge_power [OF plo]) simp
  have mhi: "m \<le> 2 powi 1024 - 2 powi (1024 - 53)"
    unfolding m_def p_def [symmetric] by (rule nearest_below_power [OF plo phi])
  have mpos: "0 < m" using mlo two_powi_pos [of "- 1022"] by linarith
  have r1: "r \<le> x * (1 + u)" and r2: "x * (1 - u) \<le> r"
    using rerr by (simp_all add: abs_le_iff algebra_simps)
  have p1: "p \<le> s * (1 + u)\<^sup>2"
  proof -
    have "r * r \<le> (x * (1 + u)) * (x * (1 + u))" using r1 rpos by (intro mult_mono) simp_all
    also have "\<dots> = (x * x) * (1 + u)\<^sup>2" by (simp add: power2_eq_square)
    finally show ?thesis by (simp add: p_def xx)
  qed
  have p2: "s * (1 - u)\<^sup>2 \<le> p"
  proof -
    have "(x * (1 - u)) * (x * (1 - u)) \<le> r * r" using r2 xpos u rpos by (intro mult_mono) simp_all
    moreover have "(x * (1 - u)) * (x * (1 - u)) = (x * x) * (1 - u)\<^sup>2" by (simp add: power2_eq_square)
    ultimately show ?thesis by (simp add: p_def xx)
  qed
  have m1: "m \<le> s * (1 + u) ^ 3"
  proof -
    have "m \<le> p * (1 + u)" using merr by (simp add: abs_le_iff algebra_simps)
    also have "\<dots> \<le> (s * (1 + u)\<^sup>2) * (1 + u)" using p1 u by (intro mult_right_mono) simp_all
    finally show ?thesis by (simp add: power3_eq_cube power2_eq_square)
  qed
  have m2: "s * (1 - u) ^ 3 \<le> m"
  proof -
    have "(s * (1 - u)\<^sup>2) * (1 - u) \<le> p * (1 - u)" using p2 u by (intro mult_right_mono) simp_all
    also have "\<dots> \<le> m" using merr by (simp add: abs_le_iff algebra_simps)
    finally show ?thesis by (simp add: power3_eq_cube power2_eq_square)
  qed
  define q where "q = s / m"
  have q1: "q \<le> 1 / (1 - u) ^ 3"
  proof -
    have c: "0 < (1 - u) ^ 3" using u by simp
    have "s / m \<le> s / (s * (1 - u) ^ 3)"
      using m2 spos mpos c by (intro divide_left_mono) simp_all
    then show ?thesis using spos by (simp add: q_def)
  qed
  have q2: "1 / (1 + u) ^ 3 \<le> q"
  proof -
    have c: "0 < (1 + u) ^ 3" using u by simp
    have "s / (s * (1 + u) ^ 3) \<le> s / m"
      using m1 spos mpos c by (intro divide_left_mono) simp_all
    then show ?thesis using spos by (simp add: q_def)
  qed
  have c1: "1 / (1 - u) ^ 3 \<le> 1 + 4 * u"
    by (simp add: u_def power_int_def power_one_over power_divide)
  have c2: "1 - 3 * u \<le> 1 / (1 + u) ^ 3"
    by (simp add: u_def power_int_def power_one_over power_divide)
  have qhi: "q \<le> 1 + 4 * u" and qlo: "1 - 3 * u \<le> q" using q1 q2 c1 c2 by linarith+
  have qlow: "2 powi (- 1022) \<le> q"
  proof -
    have "(2::real) powi (- 1022) \<le> 2 powi (- 1)" by (rule power_int_increasing) simp_all
    with qlo u show ?thesis by simp
  qed
  have terr: "\<bar>t - q\<bar> \<le> q * u" unfolding t_def q_def [symmetric] u_def by (rule nearest_error [OF qlow])
  have tlo: "2 powi (- 1022) \<le> t" unfolding t_def q_def [symmetric] by (rule nearest_ge_power [OF qlow]) simp
  have tpos: "0 < t" using tlo two_powi_pos [of "- 1022"] by linarith
  have "q * u \<le> (1 + 4 * u) * u" using qhi u by (intro mult_right_mono) simp_all
  also have "\<dots> \<le> 2 * u" using u by (simp add: algebra_simps) 
  finally have "q * u \<le> 2 * u" .
  with terr qhi qlo have tb: "\<bar>t - 1\<bar> \<le> 6 * u" by linarith
  have "6 * u \<le> 2 powi (- 50)" by (simp add: u_def power_int_def power_one_over)
  with tb have close: "\<bar>t - 1\<bar> \<le> 2 powi (- 50)" by linarith
  have "\<bar>t - 1\<bar> \<le> 1" using tb u by linarith
  then have tfin: "t < 2 ^ 1024" by (simp add: abs_le_iff)
  have rfin: "r < 2 ^ 1024" using rhi by simp
  have mfin: "m < 2 ^ 1024" using mhi by simp
  from rpos rfin mpos mfin tpos tfin close show ?thesis by simp
qed

lemma nearest_nonneg: "0 \<le> x \<Longrightarrow> 0 \<le> nearest x"
proof -
  assume "0 \<le> x"
  then have "of_int 0 \<le> x / 2 powi (exponentOf x - 52)" by simp
  then have "0 \<le> roundHalfEven (x / 2 powi (exponentOf x - 52))" by (rule roundHalfEven_ge)
  then show ?thesis by (simp add: nearest_def Let_def)
qed

text \<open>A tie next to an even integer goes to it.\<close>

lemma roundHalfEven_ge_half:
  assumes "of_int n - 1 / 2 \<le> y" "even n"
  shows "n \<le> roundHalfEven y"
proof (cases "of_int n \<le> y")
  case True
  then show ?thesis by (rule roundHalfEven_ge)
next
  case False
  with assms(1) have f: "\<lfloor>y\<rfloor> = n - 1" by (simp add: floor_eq_iff) 
  have "\<not> y - of_int \<lfloor>y\<rfloor> < 1 / 2" using assms(1) f by simp
  moreover have "odd \<lfloor>y\<rfloor>" using f assms(2) by simp
  ultimately show ?thesis using f by (simp add: roundHalfEven_def Let_def)
qed

text \<open>A finite rounded magnitude is at most the largest double.\<close>

lemma nearest_finite_le_max:
  assumes "0 < y" "nearest y < 2 ^ 1024"
  shows "nearest y \<le> 2 ^ 1024 - 2 ^ 971"
proof (cases "2 powi (- 1022) \<le> y")
  case False
  then have "exponentOf y = - 1022" using assms(1) by (intro exponentOf_subnormal) simp_all
  with nearest_le_next_power [OF assms(1)] have "nearest y \<le> 2 powi (- 1021)" by simp
  also have "(2::real) powi (- 1021) \<le> 2 powi 0" by (rule power_int_increasing) simp_all
  finally show ?thesis by simp
next
  case low: True
  show ?thesis
  proof (cases "y < 2 powi 1024 - 2 powi (1024 - 54)")
    case True
    from nearest_below_power [OF low True] show ?thesis by simp
  next
    case False
    have "2 ^ 1024 \<le> nearest y"
    proof (cases "2 powi 1024 \<le> y")
      case True
      from nearest_ge_power [OF True] show ?thesis by simp
    next
      case top: False
      have "2 powi 1023 \<le> y" using False by simp
      then have e: "exponentOf y = 1023" using top by (intro exponentOf_normal) simp_all
      have "of_int (2 ^ 53) - 1 / 2 \<le> y / 2 powi (exponentOf y - 52)"
        using False by (simp add: e pos_le_divide_eq algebra_simps)
      then have "2 ^ 53 \<le> roundHalfEven (y / 2 powi (exponentOf y - 52))"
        by (rule roundHalfEven_ge_half) simp
      then have "of_int (2 ^ 53) * 2 powi (exponentOf y - 52) \<le> nearest y"
        unfolding nearest_def Let_def by (intro mult_right_mono) (simp_all flip: of_int_le_iff)
      then show ?thesis by (simp add: e)
    qed
    with assms(2) show ?thesis by simp
  qed
qed

text \<open>A rounded magnitude below \<open>2 ^ - 1022\<close> is a multiple of \<open>2 ^ - 1074\<close>.\<close>

lemma nearest_subnormal:
  assumes "0 < y" "nearest y < 2 powi (- 1022)"
  shows "\<exists>k. 0 \<le> k \<and> nearest y = of_int k * 2 powi (- 1074)"
proof -
  have "y < 2 powi (- 1022)"
  proof (rule ccontr)
    assume "\<not> y < 2 powi (- 1022)"
    then have "2 powi (- 1022) \<le> y" by simp
    from nearest_ge_power [OF this] assms(2) show False by simp
  qed
  then have e: "exponentOf y = - 1022" using assms(1) by (intro exponentOf_subnormal)
  have "0 \<le> roundHalfEven (y / 2 powi (- 1074))"
    using assms(1) by (intro roundHalfEven_ge) simp
  then show ?thesis by (auto simp: nearest_def Let_def e)
qed

text \<open>
  The same three roundings for a subnormal sum of squares \<open>s = k * 2 ^ - 1074\<close>. The root
  of \<open>s\<close> is normal; the product \<open>m\<close> is again a multiple of \<open>2 ^ - 1074\<close>, equal to \<open>s\<close>
  when \<open>k\<close> is below \<open>2 ^ 51\<close> and at most one multiple away from it otherwise.
\<close>

lemma nearest_1: "nearest 1 = 1"
proof -
  have e: "exponentOf 1 = 0"
    by (rule exponentOf_normal) (simp_all add: power_int_def power_one_over)
  show ?thesis
    by (rule nearest_exact [OF e, of "2 ^ 52"]) (simp_all add: power_int_def power_one_over)
qed

lemma self_similarity_subnormal:
  assumes grid: "s = of_int k * 2 powi (- 1074)" and pos: "0 < s" and sub: "s < 2 powi (- 1022)"
  defines "r \<equiv> nearest (sqrt s)"
  defines "m \<equiv> nearest (r * r)"
  defines "t \<equiv> nearest (s / m)"
  shows "0 < r \<and> r < 2 ^ 1024 \<and> 0 < m \<and> m < 2 ^ 1024 \<and> 0 < t \<and> t < 2 ^ 1024 \<and>
         \<bar>t - 1\<bar> \<le> 2 powi (- 50)"
proof -
  define u :: real where "u = 2 powi (- 53)"
  define q :: real where "q = 2 powi (- 1074)"
  have u: "0 < u" "u \<le> 1 / 16" by (simp_all add: u_def power_int_def power_one_over)
  have q: "0 < q" by (simp add: q_def)
  have s: "s = of_int k * q" using grid by (simp add: q_def)
  have k1: "1 \<le> k"
  proof -
    have "0 < of_int k * q" using pos s by simp
    then have "0 < (of_int k :: real)" using q by (simp add: zero_less_mult_iff)
    then show ?thesis by simp
  qed
  have k2: "k \<le> 2 ^ 52 - 1"
  proof -
    have e: "(2::real) powi (- 1022) = 2 ^ 52 * q"
      using two_powi_shift [of "- 1022" 52] by (simp add: q_def)
    from sub have "of_int k * q < 2 ^ 52 * q" unfolding s e .
    then have "(of_int k :: real) < 2 ^ 52" using q by (simp only: mult_less_cancel_right_pos)
    then have "k < 2 ^ 52" by (simp flip: of_int_less_iff)
    then show ?thesis by simp
  qed
  define x where "x = sqrt s"
  have xx: "x * x = s" using pos by (simp add: x_def)
  have xpos: "0 < x" using pos by (simp add: x_def)
  have xlo: "2 powi (- 537) \<le> x"
  proof -
    have "(2 powi (- 537))\<^sup>2 = (2::real) powi (- 1074)"
      using two_powi_add [of "- 537" "- 537"] by (simp add: power2_eq_square)
    moreover have "q \<le> s" using k1 q s by (simp add: mult_le_cancel_right1 flip: of_int_le_iff)
    ultimately have "(2 powi (- 537))\<^sup>2 \<le> s" by (simp add: q_def)
    then show ?thesis unfolding x_def by (rule real_le_rsqrt)
  qed
  have xlow: "2 powi (- 1022) \<le> x"
  proof -
    have "(2::real) powi (- 1022) \<le> 2 powi (- 537)" by (rule power_int_increasing) simp_all
    with xlo show ?thesis by linarith
  qed
  have rerr: "\<bar>r - x\<bar> \<le> x * u"
    unfolding r_def x_def [symmetric] u_def by (rule nearest_error [OF xlow])
  have rlo: "2 powi (- 537) \<le> r"
    unfolding r_def x_def [symmetric] by (rule nearest_ge_power [OF xlo]) simp
  have rpos: "0 < r" using rlo two_powi_pos [of "- 537"] by linarith
  have r1: "r \<le> x * (1 + u)" and r2: "x * (1 - u) \<le> r"
    using rerr by (simp_all add: abs_le_iff algebra_simps)
  define p where "p = r * r"
  have ppos: "0 < p" using rpos by (simp add: p_def)
  have p1: "p \<le> s * (1 + u)\<^sup>2"
  proof -
    have "r * r \<le> (x * (1 + u)) * (x * (1 + u))" using r1 rpos by (intro mult_mono) simp_all
    also have "\<dots> = (x * x) * (1 + u)\<^sup>2" by (simp add: power2_eq_square)
    finally show ?thesis by (simp add: p_def xx)
  qed
  have p2: "s * (1 - u)\<^sup>2 \<le> p"
  proof -
    have "(x * (1 - u)) * (x * (1 - u)) \<le> r * r" using r2 xpos u rpos by (intro mult_mono) simp_all
    moreover have "(x * (1 - u)) * (x * (1 - u)) = (x * x) * (1 - u)\<^sup>2" by (simp add: power2_eq_square)
    ultimately show ?thesis by (simp add: p_def xx)
  qed
  have xsmall: "x < 1"
  proof -
    have "(2::real) powi (- 1022) \<le> 2 powi 0" by (rule power_int_increasing) simp_all
    with sub have "s < 1\<^sup>2" by simp
    then show ?thesis unfolding x_def using real_less_lsqrt [of 1 s] by simp
  qed
  have rfin: "r < 2 ^ 1024"
  proof -
    have "x * (1 + u) \<le> 1 * (1 + u)" using xsmall u by (intro mult_right_mono) simp_all
    then have "x * (1 + u) \<le> 1 + u" by simp
    with r1 u have "r \<le> 2" by linarith
    then show ?thesis by (simp add: order_le_less_trans)
  qed
  have psub: "p < 2 powi (- 1022)"
  proof -
    have "s \<le> (2 ^ 52 - 1) * q"
      unfolding s using k2 q by (intro mult_right_mono) (simp_all flip: of_int_le_iff)
    then have "s * (1 + u)\<^sup>2 \<le> ((2 ^ 52 - 1) * q) * (1 + u)\<^sup>2" by (intro mult_right_mono) simp_all
    also have "\<dots> = ((2 ^ 52 - 1) * (1 + u)\<^sup>2) * q" by simp
    also have "\<dots> < 2 ^ 52 * q"
      using q by (intro mult_strict_right_mono) (simp_all add: u_def power_int_def power_one_over power_divide)
    also have "\<dots> = 2 powi (- 1022)"
      using two_powi_shift [of "- 1022" 52] by (simp add: q_def)
    finally show ?thesis using p1 by linarith
  qed
  have pe: "exponentOf p = - 1022" using ppos psub by (rule exponentOf_subnormal)
  define z where "z = p / q"
  define j where "j = roundHalfEven z"
  have m: "m = of_int j * q" by (simp add: m_def p_def [symmetric] nearest_def Let_def pe j_def z_def q_def)
  have z1: "z \<le> of_int k * (1 + u)\<^sup>2"
  proof -
    have "p / q \<le> (s * (1 + u)\<^sup>2) / q" using p1 q by (intro divide_right_mono) simp_all
    then show ?thesis using q by (simp add: z_def s)
  qed
  have z2: "of_int k * (1 - u)\<^sup>2 \<le> z"
  proof -
    have "(s * (1 - u)\<^sup>2) / q \<le> p / q" using p2 q by (intro divide_right_mono) simp_all
    then show ?thesis using q by (simp add: z_def s)
  qed
  have kpos: "0 < (of_int k :: real)" using k1 by simp
  have zk: "\<bar>z - of_int k\<bar> \<le> of_int k * (2 * u + u\<^sup>2)"
  proof -
    have "of_int k * (1 + u)\<^sup>2 = of_int k + of_int k * (2 * u + u\<^sup>2)"
      by (simp add: power2_eq_square algebra_simps)
    moreover have "of_int k * (1 - u)\<^sup>2 = of_int k - of_int k * (2 * u + u\<^sup>2) + of_int k * (2 * u\<^sup>2)"
      by (simp add: power2_eq_square algebra_simps)
    moreover have "0 \<le> of_int k * (2 * u\<^sup>2)" using kpos by simp
    ultimately show ?thesis using z1 z2 by (simp add: abs_le_iff) 
  qed
  show ?thesis
  proof (cases "of_int k * (2 * u + u\<^sup>2) < (1 / 2 :: real)")
    case True
    with zk have "\<bar>z - of_int k\<bar> < 1 / 2" by linarith
    then have "j = k" unfolding j_def by (rule roundHalfEven_eqI)
    then have ms: "m = s" by (simp add: m s)
    then have t1: "t = 1" using pos by (simp add: t_def nearest_1)
    from rpos rfin pos sub ms t1 show ?thesis
      by (simp add: order_less_trans [OF sub])
  next
    case False
    have k3: "2 ^ 51 \<le> k"
    proof (rule ccontr)
      assume "\<not> 2 ^ 51 \<le> k"
      then have "k \<le> 2 ^ 51 - 1" by simp
      then have "(of_int k :: real) \<le> 2 ^ 51 - 1" by (simp flip: of_int_le_iff)
      then have "of_int k * (2 * u + u\<^sup>2) \<le> (2 ^ 51 - 1) * (2 * u + u\<^sup>2)"
        using u by (intro mult_right_mono) simp_all
      also have "\<dots> < 1 / 2" by (simp add: u_def power_int_def power_one_over power_divide)
      finally show False using False by simp
    qed
    have "(of_int k :: real) \<le> 2 ^ 52" using k2 by (simp flip: of_int_le_iff)
    then have "of_int k * (2 * u + u\<^sup>2) \<le> 2 ^ 52 * (2 * u + u\<^sup>2)"
      using u by (intro mult_right_mono) simp_all
    also have "\<dots> < 5 / 4" by (simp add: u_def power_int_def power_one_over power_divide)
    finally have "\<bar>z - of_int k\<bar> < 5 / 4" using zk by linarith
    moreover have "\<bar>of_int j - z\<bar> \<le> 1 / 2" unfolding j_def by (rule roundHalfEven_close)
    ultimately have "\<bar>(of_int j :: real) - of_int k\<bar> < 2" by linarith
    then have "\<bar>j - k\<bar> < 2" by (simp flip: of_int_diff of_int_abs add: of_int_less_iff [symmetric] del: of_int_diff)
    then have jk: "k - 1 \<le> j" "j \<le> k + 1" by linarith+
    have jlo: "2 ^ 51 - 1 \<le> j" using jk k3 by linarith
    then have jpos: "0 < (of_int j :: real)" by simp
    have mpos: "0 < m" using jpos q by (simp add: m)
    have mfin: "m < 2 ^ 1024"
    proof -
      have "(of_int j :: real) \<le> 2 ^ 52" using jk k2 by (simp flip: of_int_le_iff)
      then have "m \<le> 2 ^ 52 * q" unfolding m using q by (intro mult_right_mono) simp_all
      also have "\<dots> = 2 powi (- 1022)" using two_powi_shift [of "- 1022" 52] by (simp add: q_def)
      also have "\<dots> \<le> 2 powi 0" by (rule power_int_increasing) simp_all
      finally show ?thesis by (simp add: order_le_less_trans)
    qed
    define c :: real where "c = 1 / (2 ^ 51 - 1)"
    define w where "w = s / m"
    have w: "w = of_int k / of_int j" using q by (simp add: w_def s m)
    have wc: "\<bar>w - 1\<bar> \<le> c"
    proof -
      have "w - 1 = (of_int k - of_int j) / of_int j" using jpos by (simp add: w field_simps)
      then have "\<bar>w - 1\<bar> = \<bar>of_int k - of_int j\<bar> / of_int j" using jpos by simp
      also have "\<dots> \<le> 1 / of_int j"
      proof -
        have "\<bar>(of_int k :: real) - of_int j\<bar> \<le> 1" using jk by (simp flip: of_int_diff of_int_abs)
        then show ?thesis using jpos by (intro divide_right_mono) simp_all
      qed
      also have "\<dots> \<le> 1 / (2 ^ 51 - 1)"
      proof -
        have "(2 ^ 51 - 1 :: real) \<le> of_int j" using jlo by (simp flip: of_int_le_iff)
        then show ?thesis by (intro divide_left_mono) simp_all
      qed
      finally show ?thesis by (simp add: c_def)
    qed
    have cs: "0 < c" "c \<le> 1 / 2" by (simp_all add: c_def)
    have wlow: "2 powi (- 1022) \<le> w"
    proof -
      have "(2::real) powi (- 1022) \<le> 2 powi (- 1)" by (rule power_int_increasing) simp_all
      with wc cs show ?thesis by (simp add: abs_le_iff)
    qed
    have terr: "\<bar>t - w\<bar> \<le> w * u" unfolding t_def w_def [symmetric] u_def by (rule nearest_error [OF wlow])
    have tlo: "2 powi (- 1022) \<le> t" unfolding t_def w_def [symmetric] by (rule nearest_ge_power [OF wlow]) simp
    have tpos: "0 < t" using tlo two_powi_pos [of "- 1022"] by linarith
    have "w * u \<le> (1 + c) * u" using wc u by (intro mult_right_mono) (simp_all add: abs_le_iff)
    with terr wc have tb: "\<bar>t - 1\<bar> \<le> c + (1 + c) * u" by linarith
    have "c + (1 + c) * u \<le> 2 powi (- 50)"
      by (simp add: c_def u_def power_int_def power_one_over power_divide)
    with tb have close: "\<bar>t - 1\<bar> \<le> 2 powi (- 50)" by linarith
    have "(2::real) powi (- 50) \<le> 1" by (simp add: power_int_def power_one_over)
    with close have "\<bar>t - 1\<bar> \<le> 1" by linarith
    then have tfin: "t < 2 ^ 1024" by (simp add: abs_le_iff)
    from rpos rfin mpos mfin tpos tfin close show ?thesis by simp
  qed
qed

text \<open>A real that is a multiple of its unit is its own rounding.\<close>

lemma roundMagnitude_exactI:
  assumes "exponentOf x = k" "x = of_int n * 2 powi (k - 52)" "x < 2 ^ 1024"
  shows "roundMagnitude x = Finite x"
  using nearest_exact [OF assms(1,2)] assms(3) by (simp add: roundMagnitude_def)

lemma roundMagnitude_0 [simp]: "roundMagnitude 0 = Finite 0"
  by (simp add: roundMagnitude_def)

text \<open>The roundings that occur in the examples.\<close>

lemma roundMagnitude_1 [simp]: "roundMagnitude 1 = Finite 1"
proof -
  have e: "exponentOf 1 = 0"
    by (rule exponentOf_normal) (simp_all add: power_int_def power_one_over)
  show ?thesis
    by (rule roundMagnitude_exactI [OF e, of "2 ^ 52"]) (simp_all add: power_int_def power_one_over)
qed

lemma roundMagnitude_3 [simp]: "roundMagnitude 3 = Finite 3"
proof -
  have e: "exponentOf 3 = 1"
    by (rule exponentOf_normal) (simp_all add: power_int_def power_one_over)
  show ?thesis
    by (rule roundMagnitude_exactI [OF e, of "3 * 2 ^ 51"]) (simp_all add: power_int_def power_one_over)
qed

lemma roundMagnitude_5 [simp]: "roundMagnitude 5 = Finite 5"
proof -
  have e: "exponentOf 5 = 2"
    by (rule exponentOf_normal) (simp_all add: power_int_def power_one_over)
  show ?thesis
    by (rule roundMagnitude_exactI [OF e, of "5 * 2 ^ 50"]) (simp_all add: power_int_def power_one_over)
qed

lemma roundMagnitude_9 [simp]: "roundMagnitude 9 = Finite 9"
proof -
  have e: "exponentOf 9 = 3"
    by (rule exponentOf_normal) (simp_all add: power_int_def power_one_over)
  show ?thesis
    by (rule roundMagnitude_exactI [OF e, of "9 * 2 ^ 49"]) (simp_all add: power_int_def power_one_over)
qed

lemma roundMagnitude_16 [simp]: "roundMagnitude 16 = Finite 16"
proof -
  have e: "exponentOf 16 = 4"
    by (rule exponentOf_normal) (simp_all add: power_int_def power_one_over)
  show ?thesis
    by (rule roundMagnitude_exactI [OF e, of "16 * 2 ^ 48"]) (simp_all add: power_int_def power_one_over)
qed

lemma roundMagnitude_25 [simp]: "roundMagnitude 25 = Finite 25"
proof -
  have e: "exponentOf 25 = 4"
    by (rule exponentOf_normal) (simp_all add: power_int_def power_one_over)
  show ?thesis
    by (rule roundMagnitude_exactI [OF e, of "25 * 2 ^ 48"]) (simp_all add: power_int_def power_one_over)
qed

lemma roundMagnitude_three_fifths:
  "roundMagnitude (3 / 5) = Finite (5404319552844595 / 9007199254740992)"
proof -
  have e: "exponentOf (3 / 5) = - 1"
    by (rule exponentOf_normal) (simp_all add: power_int_def power_one_over)
  have "nearest (3 / 5) = of_int 5404319552844595 * 2 powi (- 1 - 52)"
    by (rule nearest_eqI [OF e]) (simp add: power_int_def power_one_over)
  then have "nearest (3 / 5) = 5404319552844595 / 9007199254740992"
    by (simp add: power_int_def power_one_over)
  then show ?thesis by (simp add: roundMagnitude_def)
qed

lemma sqrt_25: "sqrt 25 = 5"
  using real_sqrt_abs2 [of 5] by simp

text \<open>The square of \<open>2 ^ 600\<close> is infinite, and the square of \<open>2 ^ - 600\<close> rounds to 0.\<close>

lemma roundMagnitude_overflow: "roundMagnitude (2 ^ 1200) = Infinite"
proof -
  have e: "exponentOf (2 ^ 1200) = 1200"
    by (rule exponentOf_normal) (simp_all add: power_int_def power_one_over)
  have "nearest (2 ^ 1200) = 2 ^ 1200"
    by (rule nearest_exact [OF e, of "2 ^ 52"]) (simp add: power_int_def power_one_over flip: power_add)
  then show ?thesis by (simp add: roundMagnitude_def)
qed

lemma roundMagnitude_underflow: "roundMagnitude (1 / 2 ^ 1200) = Finite 0"
proof -
  have e: "exponentOf (1 / 2 ^ 1200) = - 1022"
    by (rule exponentOf_subnormal) (simp_all add: power_int_def power_one_over)
  have "nearest (1 / 2 ^ 1200) = of_int 0 * 2 powi (- 1022 - 52)"
    by (rule nearest_eqI [OF e]) (simp add: power_int_def power_one_over)
  then show ?thesis by (simp add: roundMagnitude_def)
qed

subsection \<open>The similarity\<close>

text \<open>The three sums of the loop are accumulated independently of each other.\<close>

lemma cosineStep_pair [simp]:
  "cosineStep (d, na, nb) (x, y) =
     (numberAdd d (numberMultiply x y), numberAdd na (numberMultiply x x),
      numberAdd nb (numberMultiply y y))"
  by (simp add: cosineStep_def)

lemma foldl_cosineStep:
  "length a = length b \<Longrightarrow>
   foldl cosineStep (d, na, nb) (zip a b) =
     (foldl numberAdd d (map2 numberMultiply a b),
      foldl numberAdd na (map (\<lambda>x. numberMultiply x x) a),
      foldl numberAdd nb (map (\<lambda>x. numberMultiply x x) b))"
  by (induction a b arbitrary: d na nb rule: list_induct2) simp_all

lemma cosineSimilarity_equal_length:
  assumes "length a = length b"
  shows "cosineSimilarity a b =
           Inr (if strictEquals (numberMultiply (euclideanNorm a) (euclideanNorm b)) (positive 0)
                then positive 0
                else numberDivide (dot a b) (numberMultiply (euclideanNorm a) (euclideanNorm b)))"
  using assms
  by (simp add: cosineSimilarity_def foldl_cosineStep dot_def euclideanNorm_def sumOfSquares_def
      accumulate_def Let_def)

text \<open>The product of a zero and a finite Number is a zero.\<close>

lemma strictEquals_zero:
  "strictEquals a (positive 0) \<longleftrightarrow> (\<exists>s. a = Number s (Finite 0))"
proof (cases a)
  case NaN
  then show ?thesis by (simp add: strictEquals_def)
next
  case (Number s m)
  then show ?thesis by (cases m) (auto simp: strictEquals_def)
qed

lemma zero_times_finite:
  assumes "strictEquals a (positive 0)" "isFinite b"
  shows "strictEquals (numberMultiply a b) (positive 0)"
    and "strictEquals (numberMultiply b a) (positive 0)"
proof -
  from assms(1) obtain s where a: "a = Number s (Finite 0)" by (auto simp: strictEquals_zero)
  from assms(2) obtain t y where b: "b = Number t (Finite y)" by (cases b rule: isFinite.cases) auto
  show "strictEquals (numberMultiply a b) (positive 0)"
    and "strictEquals (numberMultiply b a) (positive 0)"
    by (simp_all add: a b strictEquals_zero)
qed

lemma cosineSimilarity_zero_norm:
  assumes "length a = length b"
    and "strictEquals (euclideanNorm a) (positive 0) \<and> isFinite (euclideanNorm b) \<or>
         isFinite (euclideanNorm a) \<and> strictEquals (euclideanNorm b) (positive 0)"
  shows "cosineSimilarity a b = Inr (positive 0)"
  using assms(2) zero_times_finite [of "euclideanNorm a" "euclideanNorm b"]
    zero_times_finite [of "euclideanNorm b" "euclideanNorm a"]
  by (auto simp: cosineSimilarity_equal_length [OF assms(1)])

lemma dot_self: "dot v v = sumOfSquares v"
proof -
  have "map2 numberMultiply v v = map (\<lambda>x. numberMultiply x x) v"
    by (induction v) simp_all
  then show ?thesis by (simp add: dot_def sumOfSquares_def)
qed

text \<open>
  A sum of squares is \<open>NaN\<close> or positive; its magnitude, when finite, is 0 or the rounding
  of a positive real.
\<close>

lemma roundMagnitude_form:
  assumes "0 \<le> x" "roundMagnitude x = Finite z"
  shows "z = 0 \<or> (\<exists>y. 0 < y \<and> z = nearest y \<and> nearest y < 2 ^ 1024)"
proof (cases "x = 0")
  case True
  with assms(2) show ?thesis by simp
next
  case False
  with assms(1) have "0 < x" by simp
  moreover from assms(2) False have "z = nearest x \<and> nearest x < 2 ^ 1024"
    by (auto simp: roundMagnitude_def split: if_splits)
  ultimately show ?thesis by blast
qed

lemma square_form:
  "numberMultiply x x = NaN \<or> numberMultiply x x = Number False Infinite \<or>
   (\<exists>z. 0 \<le> z \<and> numberMultiply x x = positive z)"
proof (cases x)
  case NaN
  then show ?thesis by simp
next
  case (Number s m)
  show ?thesis
  proof (cases m)
    case Infinite
    with Number show ?thesis by simp
  next
    case (Finite y)
    show ?thesis
    proof (cases "roundMagnitude (y * y)")
      case Infinite
      with Number Finite show ?thesis by simp
    next
      case (Finite z)
      have "0 \<le> z"
        using roundMagnitude_form [OF _ Finite] nearest_nonneg [of "y * y"] Finite
        by (auto simp: roundMagnitude_def split: if_splits)
      with Number \<open>m = Finite y\<close> Finite show ?thesis by simp
    qed
  qed
qed

lemma sumOfSquares_form:
  "sumOfSquares v = NaN \<or> sumOfSquares v = Number False Infinite \<or>
   (\<exists>z. sumOfSquares v = positive z \<and>
        (z = 0 \<or> (\<exists>y. 0 < y \<and> z = nearest y \<and> nearest y < 2 ^ 1024)))"
proof (induction v rule: rev_induct)
  case Nil
  then show ?case by (simp add: sumOfSquares_def accumulate_def)
next
  case (snoc x v)
  have step: "sumOfSquares (v @ [x]) = numberAdd (sumOfSquares v) (numberMultiply x x)"
    by (simp add: sumOfSquares_def accumulate_def)
  from snoc consider
      "sumOfSquares v = NaN" | "sumOfSquares v = Number False Infinite"
    | z where "sumOfSquares v = positive z" "0 \<le> z"
    using nearest_nonneg [OF less_imp_le] by (elim disjE exE conjE) auto
  then show ?case
  proof cases
    case 1
    then show ?thesis by (simp add: step)
  next
    case 2
    from square_form [of x] show ?thesis
      by (auto simp: step 2)
  next
    case 3
    from square_form [of x] show ?thesis
    proof (elim disjE exE conjE)
      assume "numberMultiply x x = NaN"
      then show ?thesis by (simp add: step 3)
    next
      assume "numberMultiply x x = Number False Infinite"
      then show ?thesis by (simp add: step 3)
    next
      fix w assume w: "0 \<le> w" "numberMultiply x x = positive w"
      show ?thesis
      proof (cases "roundMagnitude (z + w)")
        case Infinite
        with w show ?thesis by (simp add: step 3)
      next
        case (Finite a)
        have "0 \<le> z + w" using 3 w by simp
        from roundMagnitude_form [OF this Finite] Finite w show ?thesis
          by (simp add: step 3)
      qed
    qed
  qed
qed


lemma cosineSimilarity_self:
  assumes fin: "isFinite (sumOfSquares v)"
    and nz: "\<not> strictEquals (sumOfSquares v) (positive 0)"
  shows "\<exists>t. cosineSimilarity v v = Inr (positive t) \<and> \<bar>t - 1\<bar> \<le> 2 powi (- 50)"
proof -
  from sumOfSquares_form [of v] fin nz obtain s y where
    sum: "sumOfSquares v = positive s" and y: "0 < y" "s = nearest y" "nearest y < 2 ^ 1024"
    and s0: "s \<noteq> 0"
    by (auto simp: strictEquals_def)
  have spos: "0 < s" using nearest_nonneg [of y] y s0 by simp
  define r where "r = nearest (sqrt s)"
  define m where "m = nearest (r * r)"
  define t where "t = nearest (s / m)"
  have "0 < r \<and> r < 2 ^ 1024 \<and> 0 < m \<and> m < 2 ^ 1024 \<and> 0 < t \<and> t < 2 ^ 1024 \<and>
        \<bar>t - 1\<bar> \<le> 2 powi (- 50)"
  proof (cases "2 powi (- 1022) \<le> s")
    case True
    have "s \<le> 2 ^ 1024 - 2 ^ 971" using nearest_finite_le_max [OF y(1,3)] y(2) by simp
    from self_similarity_rounding [OF True this] show ?thesis by (simp add: r_def m_def t_def)
  next
    case False
    then have "nearest y < 2 powi (- 1022)" using y(2) by simp
    from nearest_subnormal [OF y(1) this] obtain k where "s = of_int k * 2 powi (- 1074)"
      using y(2) by auto
    from self_similarity_subnormal [OF this spos] False show ?thesis
      by (simp add: r_def m_def t_def)
  qed
  then have b: "0 < r" "r < 2 ^ 1024" "0 < m" "m < 2 ^ 1024" "0 < t" "t < 2 ^ 1024"
    and close: "\<bar>t - 1\<bar> \<le> 2 powi (- 50)"
    by simp_all
  have norm: "euclideanNorm v = positive r"
    using spos b by (simp add: euclideanNorm_def sum roundMagnitude_def r_def)
  have mag: "numberMultiply (euclideanNorm v) (euclideanNorm v) = positive m"
    using b by (simp add: norm roundMagnitude_def m_def)
  have "cosineSimilarity v v = Inr (positive t)"
    using spos b
    by (simp add: cosineSimilarity_equal_length mag dot_self sum strictEquals_def
        roundMagnitude_def t_def)
  with close show ?thesis by blast
qed

text \<open>
  C9, as stated, fails where a square leaves the range of doubles. The square of
  \<open>2 ^ 600\<close> is infinite: against the vector \<open>[0]\<close>, whose norm is 0, the product of the
  norms is infinity times zero, which is \<open>NaN\<close> and not 0, and the result is \<open>NaN\<close>. The
  square of \<open>2 ^ - 600\<close> rounds to 0: the vector \<open>[2 ^ - 600]\<close> is not zero and its
  similarity with itself is 0.
\<close>

theorem cosineSimilarity_range_counterexample:
  "cosineSimilarity [positive (2 ^ 600)] [positive 0] = Inr NaN \<and>
   euclideanNorm [positive 0] = positive 0 \<and>
   cosineSimilarity [positive (1 / 2 ^ 600)] [positive (1 / 2 ^ 600)] = Inr (positive 0) \<and>
   (1 / 2 ^ 600 :: real) \<noteq> 0"
proof -
  have infinite: "cosineSimilarity [positive (2 ^ 600)] [positive 0] = Inr NaN"
    by (simp add: cosineSimilarity_def strictEquals_def roundMagnitude_overflow [simplified])
  have norm: "euclideanNorm [positive 0] = positive 0"
    by (simp add: euclideanNorm_def sumOfSquares_def accumulate_def)
  have vanishing:
    "cosineSimilarity [positive (1 / 2 ^ 600)] [positive (1 / 2 ^ 600)] = Inr (positive 0)"
    by (simp add: cosineSimilarity_def strictEquals_def roundMagnitude_underflow [simplified])
  from infinite norm vanishing show ?thesis by simp
qed

text \<open>
  C9, amended. For vectors of equal length \<open>cosineSimilarity\<close> is the dot product divided
  by the product of the Euclidean norms, each computed in the arithmetic of doubles,
  except that it returns 0 whenever that product is 0, never dividing by zero; this is the
  case when one norm is 0 and the other is finite. For vectors of differing length it
  raises an error. The similarity of \<open>v\<close> with itself is within \<open>2 ^ - 50\<close> of 1 for every
  \<open>v\<close> whose sum of squares, as accumulated, is finite and not zero.
\<close>

theorem cosineSimilarity_rounded:
  "(length a = length b \<longrightarrow>
      cosineSimilarity a b =
        Inr (if strictEquals (numberMultiply (euclideanNorm a) (euclideanNorm b)) (positive 0)
             then positive 0
             else numberDivide (dot a b) (numberMultiply (euclideanNorm a) (euclideanNorm b)))) \<and>
   (length a = length b \<and>
    (strictEquals (euclideanNorm a) (positive 0) \<and> isFinite (euclideanNorm b) \<or>
     isFinite (euclideanNorm a) \<and> strictEquals (euclideanNorm b) (positive 0)) \<longrightarrow>
      cosineSimilarity a b = Inr (positive 0)) \<and>
   (length a \<noteq> length b \<longrightarrow>
      cosineSimilarity a b = Inl (JsError ''Error'' ''Vectors must have the same length'' None)) \<and>
   (isFinite (sumOfSquares v) \<and> \<not> strictEquals (sumOfSquares v) (positive 0) \<longrightarrow>
      (\<exists>t. cosineSimilarity v v = Inr (positive t) \<and> \<bar>t - 1\<bar> \<le> 2 powi (- 50)))"
  using cosineSimilarity_equal_length [of a b] cosineSimilarity_zero_norm [of a b]
    cosineSimilarity_self [of v]
  by (simp add: cosineSimilarity_def)

theorem cosineSimilarity_rounded_witness:
  "length [positive 1, positive 0] = length [positive 3, positive 4] \<and>
   cosineSimilarity [positive 1, positive 0] [positive 3, positive 4] =
     Inr (positive (5404319552844595 / 9007199254740992)) \<and>
   length [positive 0, positive 0] = length [positive 3, positive 4] \<and>
   strictEquals (euclideanNorm [positive 0, positive 0]) (positive 0) \<and>
   isFinite (euclideanNorm [positive 3, positive 4]) \<and>
   cosineSimilarity [positive 0, positive 0] [positive 3, positive 4] = Inr (positive 0) \<and>
   length [positive 1, positive 3, positive 5] \<noteq> length [positive 1, positive 3] \<and>
   cosineSimilarity [positive 1, positive 3, positive 5] [positive 1, positive 3] =
     Inl (JsError ''Error'' ''Vectors must have the same length'' None) \<and>
   isFinite (sumOfSquares [positive 3, positive 4]) \<and>
   \<not> strictEquals (sumOfSquares [positive 3, positive 4]) (positive 0) \<and>
   (\<exists>t. cosineSimilarity [positive 3, positive 4] [positive 3, positive 4] = Inr (positive t) \<and>
        \<bar>t - 1\<bar> \<le> 2 powi (- 50))"
proof -
  have sums: "sumOfSquares [positive 1, positive 0] = positive 1"
    "sumOfSquares [positive 3, positive 4] = positive 25"
    "sumOfSquares [positive 0, positive 0] = positive 0"
    by (simp_all add: sumOfSquares_def accumulate_def)
  have norms: "euclideanNorm [positive 1, positive 0] = positive 1"
    "euclideanNorm [positive 3, positive 4] = positive 5"
    "euclideanNorm [positive 0, positive 0] = positive 0"
    by (simp_all add: euclideanNorm_def sums sqrt_25)
  have d: "dot [positive 1, positive 0] [positive 3, positive 4] = positive 3"
    by (simp add: dot_def accumulate_def)
  from cosineSimilarity_rounded
         [of "[positive 1, positive 0]" "[positive 3, positive 4]" "[positive 3, positive 4]"]
       cosineSimilarity_rounded
         [of "[positive 0, positive 0]" "[positive 3, positive 4]" "[positive 3, positive 4]"]
       cosineSimilarity_rounded
         [of "[positive 1, positive 3, positive 5]" "[positive 1, positive 3]"
             "[positive 3, positive 4]"]
       sums norms d
  show ?thesis
    by (simp add: strictEquals_def roundMagnitude_three_fifths)
qed

section \<open>Properties of splitIntoChunks\<close>

lemma dropWhile_space_shorter:
  "cs \<noteq> [] \<Longrightarrow> isSpace (hd cs) \<Longrightarrow> length (dropWhile isSpace cs) < length cs"
  by (cases cs) (simp_all add: length_dropWhile_le less_Suc_eq_le)

lemma splitFrom_size:
  "sum_list (map length (splitFrom piece cs)) + length (splitFrom piece cs)
     \<le> length piece + length cs + 1"
proof (induction piece cs rule: splitFrom.induct)
  case (1 piece)
  then show ?case by simp
next
  case (2 piece c cs)
  show ?case
  proof (cases "isTerminal c \<and> cs \<noteq> [] \<and> isSpace (hd cs)")
    case True
    then have "length (dropWhile isSpace cs) < length cs"
      by (simp add: dropWhile_space_shorter)
    with True "2.IH"(1) show ?thesis by simp
  next
    case False
    with "2.IH"(2) show ?thesis by auto
  qed
qed

lemma splitFrom_first:
  "piece \<noteq> [] \<or> cs \<noteq> [] \<Longrightarrow> \<exists>s ss. splitFrom piece cs = s # ss \<and> s \<noteq> []"
proof (induction piece cs rule: splitFrom.induct)
  case (1 piece)
  then show ?case by simp
next
  case (2 piece c cs)
  show ?case
  proof (cases "isTerminal c \<and> cs \<noteq> [] \<and> isSpace (hd cs)")
    case True
    then show ?thesis by simp
  next
    case False
    with "2.IH"(2) show ?thesis by auto
  qed
qed

lemma chunk_loop_no_flush:
  "cur \<noteq> [] \<Longrightarrow> int (length cur + sum_list (map length ss) + length ss) \<le> m \<Longrightarrow>
   \<exists>cur'. foldl (chunkStep m) (chunks, cur) ss = (chunks, cur') \<and> cur' \<noteq> []"
proof (induction ss arbitrary: cur)
  case Nil
  then show ?case by simp
next
  case (Cons s ss)
  let ?cur = "cur @ '' '' @ s"
  have step: "chunkStep m (chunks, cur) s = (chunks, ?cur)"
    using Cons.prems by (simp add: chunkStep_def)
  have "?cur \<noteq> []" using Cons.prems by simp
  moreover have "int (length ?cur + sum_list (map length ss) + length ss) \<le> m"
    using Cons.prems by simp
  ultimately have "\<exists>cur'. foldl (chunkStep m) (chunks, ?cur) ss = (chunks, cur') \<and> cur' \<noteq> []"
    by (rule Cons.IH)
  with step show ?case by simp
qed

lemma splitIntoChunks_short:
  assumes "text \<noteq> []" and "int (length text) \<le> m"
  shows "length (splitIntoChunks text m) = 1"
proof -
  from splitFrom_first [of "[]" "text"] assms(1)
  obtain s ss where split: "splitFrom [] text = s # ss" and s: "s \<noteq> []" by auto
  from splitFrom_size [of "[]" "text"] split
  have "length s + sum_list (map length ss) + length ss \<le> length text" by simp
  with assms(2) have bound: "int (length s + sum_list (map length ss) + length ss) \<le> m" by linarith
  have first: "chunkStep m ([], []) s = ([], s)"
    by (simp add: chunkStep_def)
  from chunk_loop_no_flush [OF s bound, of "[]"]
  obtain cur' where loop: "foldl (chunkStep m) ([], s) ss = ([], cur')" and cur': "cur' \<noteq> []"
    by blast
  show ?thesis
    using split first loop cur' by (simp add: splitIntoChunks_def splitSentences_def flushRemaining_def)
qed

lemma splitIntoChunks_empty: "splitIntoChunks [] m = []"
  by (simp add: splitIntoChunks_def splitSentences_def chunkStep_def flushRemaining_def)

lemma chunk_loop_keeps_chunks:
  "set chunks \<subseteq> set (flushRemaining (foldl (chunkStep m) (chunks, cur) ss))"
proof (induction ss arbitrary: chunks cur)
  case Nil
  then show ?case by (auto simp: flushRemaining_def)
next
  case (Cons s ss)
  show ?case
  proof (cases "int (length (cur @ s)) > m \<and> cur \<noteq> []")
    case True
    then have "chunkStep m (chunks, cur) s = (chunks @ [trim cur], s)"
      by (simp add: chunkStep_def)
    with Cons.IH [of "chunks @ [trim cur]" s] show ?thesis by auto
  next
    case False
    then have "chunkStep m (chunks, cur) s = (chunks, cur @ (if cur \<noteq> [] then '' '' else []) @ s)"
      by (auto simp add: chunkStep_def)
    with Cons.IH [of chunks "cur @ (if cur \<noteq> [] then '' '' else []) @ s"] show ?thesis by simp
  qed
qed

lemma long_buffer_is_flushed:
  assumes "int (length s) > m" and nonempty: "s \<noteq> []"
  shows "trim s \<in> set (flushRemaining (foldl (chunkStep m) (chunks, s) ss))"
proof (cases ss)
  case Nil
  with assms show ?thesis by (auto simp: flushRemaining_def)
next
  case (Cons t ts)
  from assms have "int (length (s @ t)) > m" by auto
  with nonempty have "chunkStep m (chunks, s) t = (chunks @ [trim s], t)"
    by (simp add: chunkStep_def)
  with chunk_loop_keeps_chunks [of "chunks @ [trim s]" m t ts] Cons show ?thesis by auto
qed

lemma long_sentence_own_chunk:
  "s \<in> set ss \<Longrightarrow> int (length s) > m \<Longrightarrow> s \<noteq> [] \<Longrightarrow>
   trim s \<in> set (flushRemaining (foldl (chunkStep m) (chunks, cur) ss))"
proof (induction ss arbitrary: chunks cur)
  case Nil
  then show ?case by simp
next
  case (Cons t ts)
  show ?case
  proof (cases "s = t")
    case True
    have "\<exists>chunks'. chunkStep m (chunks, cur) s = (chunks', s)"
      using Cons.prems(2) by (cases "cur = []") (auto simp: chunkStep_def)
    then obtain chunks' where "chunkStep m (chunks, cur) s = (chunks', s)" by blast
    with long_buffer_is_flushed [OF Cons.prems(2) Cons.prems(3), of chunks' ts] True show ?thesis by simp
  next
    case False
    with Cons.prems have "s \<in> set ts" by simp
    from Cons.IH [OF this Cons.prems(2) Cons.prems(3)] show ?thesis
      by (cases "chunkStep m (chunks, cur) t") simp
  qed
qed

text \<open>
  The size check of the loop compares \<^verbatim>\<open>(currentChunk + sentence).length\<close> with the limit
  but the buffer is then extended by a space and the sentence: two sentences of five
  characters each pass the check against a limit of 10 and form one chunk of 11.
\<close>

lemma splitIntoChunks_joining_space_not_counted:
  "splitSentences ''aaaa. bbbb.'' = [''aaaa.'', ''bbbb.''] \<and>
   splitIntoChunks ''aaaa. bbbb.'' 10 = [''aaaa. bbbb.''] \<and>
   length ''aaaa. bbbb.'' = 11"
  by (simp add: splitIntoChunks_def splitSentences_def chunkStep_def flushRemaining_def
      isTerminal_def isSpace_def trim_def)

text \<open>
  C8, as stated, fails on the empty text: its length is at most any non-negative limit,
  and \<open>splitIntoChunks\<close> returns no chunk for it.
\<close>

theorem splitIntoChunks_empty_text_counterexample:
  "int (length ([] :: string)) \<le> 1000 \<and> length (splitIntoChunks [] 1000) \<noteq> 1"
  by (simp add: splitIntoChunks_empty)

text \<open>
  C8, amended. A non-empty text no longer than \<open>maxChunkSize\<close> gives exactly one chunk and
  the empty text gives none; a non-empty sentence that alone is longer than
  \<open>maxChunkSize\<close> is not split: it is emitted, trimmed, as a chunk of its own.
\<close>

theorem splitIntoChunks_chunks:
  "(text \<noteq> [] \<and> int (length text) \<le> maxChunkSize \<longrightarrow>
      length (splitIntoChunks text maxChunkSize) = 1) \<and>
   splitIntoChunks [] maxChunkSize = [] \<and>
   (s \<in> set (splitSentences text) \<and> s \<noteq> [] \<and> int (length s) > maxChunkSize \<longrightarrow>
      trim s \<in> set (splitIntoChunks text maxChunkSize))"
  using splitIntoChunks_short [of "text" maxChunkSize] splitIntoChunks_empty [of maxChunkSize]
    long_sentence_own_chunk [of s "splitSentences text" maxChunkSize "[]" "[]"]
  by (simp add: splitIntoChunks_def)

theorem splitIntoChunks_chunks_witness:
  "''Short text.'' \<noteq> [] \<and> int (length ''Short text.'') \<le> 1000 \<and>
   length (splitIntoChunks ''Short text.'' 1000) = 1 \<and>
   ''Second sentence.'' \<in> set (splitSentences ''First. Second sentence.'') \<and>
   ''Second sentence.'' \<noteq> [] \<and> int (length ''Second sentence.'') > 10 \<and>
   trim ''Second sentence.'' \<in> set (splitIntoChunks ''First. Second sentence.'' 10)"
proof -
  have sentences: "splitSentences ''First. Second sentence.'' = [''First.'', ''Second sentence.'']"
    by (simp add: splitSentences_def isTerminal_def isSpace_def)
  from splitIntoChunks_chunks [of "''Short text.''" 1000 "''Second sentence.''"]
       splitIntoChunks_chunks [of "''First. Second sentence.''" 10 "''Second sentence.''"]
       sentences
  show ?thesis by simp
qed

section \<open>Properties of searchSimilar\<close>

























section \<open>Properties of the retry helper and of AiService.response\<close>

declare retryLoop.simps [simp del]

lemma retryLoop_success:
  "fn a = Inr v \<Longrightarrow> retryLoop fn maxRetries a = Inr v"
  by (subst retryLoop.simps) simp

lemma retryLoop_other_error:
  "fn a = Inl e \<Longrightarrow> status_of e \<noteq> Some 429 \<Longrightarrow> retryLoop fn maxRetries a = Inl e"
  by (subst retryLoop.simps) simp

lemma retryLoop_last_attempt:
  "fn a = Inl e \<Longrightarrow> maxRetries \<le> a \<Longrightarrow> retryLoop fn maxRetries a = Inl e"
  by (subst retryLoop.simps) simp

lemma retryLoop_retry:
  "fn a = Inl e \<Longrightarrow> status_of e = Some 429 \<Longrightarrow> a < maxRetries \<Longrightarrow>
   retryLoop fn maxRetries a = retryLoop fn maxRetries (a + 1)"
  by (subst retryLoop.simps) simp

lemma retryLoop_succeeds_after:
  assumes limited: "\<forall>i<k. \<exists>e. fn i = Inl e \<and> status_of e = Some 429"
    and ok: "fn k = Inr v" and bound: "k \<le> maxRetries"
  shows "a \<le> k \<Longrightarrow> retryLoop fn maxRetries a = Inr v"
proof (induction "k - a" arbitrary: a)
  case 0
  then have "a = k" by simp
  with ok show ?case by (simp add: retryLoop_success)
next
  case (Suc d)
  then have less: "a < k" by simp
  with limited obtain e where e: "fn a = Inl e" "status_of e = Some 429" by blast
  from less bound have "a < maxRetries" by simp
  with e have "retryLoop fn maxRetries a = retryLoop fn maxRetries (a + 1)"
    by (simp add: retryLoop_retry)
  moreover have "retryLoop fn maxRetries (a + 1) = Inr v"
    using Suc less by (intro Suc.hyps(1)) simp_all
  ultimately show ?case by simp
qed

lemma retryLoop_exhausted:
  assumes limited: "\<forall>i\<le>maxRetries. \<exists>e. fn i = Inl e \<and> status_of e = Some 429"
  shows "a \<le> maxRetries \<Longrightarrow> retryLoop fn maxRetries a = fn maxRetries"
proof (induction "maxRetries - a" arbitrary: a)
  case 0
  then have a: "a = maxRetries" by simp
  from limited obtain e where "fn maxRetries = Inl e" by blast
  with a show ?case by (simp add: retryLoop_last_attempt)
next
  case (Suc d)
  then have less: "a < maxRetries" by simp
  then have "a \<le> maxRetries" by simp
  with limited obtain e where e: "fn a = Inl e" "status_of e = Some 429" by blast
  with less have "retryLoop fn maxRetries a = retryLoop fn maxRetries (a + 1)"
    by (simp add: retryLoop_retry)
  moreover have "retryLoop fn maxRetries (a + 1) = fn maxRetries"
    using Suc less by (intro Suc.hyps(1)) simp_all
  ultimately show ?case by simp
qed

lemma withRateLimitAndRetry_runs:
  "limiterRejection env = None \<Longrightarrow>
   withRateLimitAndRetry env fn None = retryLoop fn 5 0"
  by (simp add: withRateLimitAndRetry_def schedule_def)

lemma withRateLimitAndRetry_dropped:
  "limiterRejection env = Some e \<Longrightarrow> withRateLimitAndRetry env fn optMaxRetries = Inl e"
  by (simp add: withRateLimitAndRetry_def schedule_def Let_def)

lemma response_succeeds_after_rate_limits:
  assumes "apiKey env" and "limiterRejection env = None"
    and "\<forall>i<k. \<exists>e. callProvider env (promptMessages userMessage history systemPrompt) i = Inl e \<and>
                  status_of e = Some 429"
    and "callProvider env (promptMessages userMessage history systemPrompt) k = Inr r"
    and "k \<le> 5"
  shows "response env userMessage history systemPrompt = Inr r"
  using assms retryLoop_succeeds_after [of k "callProvider env (promptMessages userMessage history systemPrompt)" r 5 0]
  by (simp add: response_def isConfigured_def withRateLimitAndRetry_runs)

lemma response_rate_limited:
  assumes "apiKey env" and "limiterRejection env = None"
    and "\<forall>i\<le>5. \<exists>e. callProvider env (promptMessages userMessage history systemPrompt) i = Inl e \<and>
                  status_of e = Some 429"
  shows "response env userMessage history systemPrompt =
           Inl (HttpException OpenAiRateLimitException
             ''Demasiadas peticiones al asistente. Intentalo de nuevo en unos segundos.'')"
proof -
  let ?fn = "callProvider env (promptMessages userMessage history systemPrompt)"
  from assms(3) obtain e where e: "?fn 5 = Inl e" "status_of e = Some 429" by blast
  from retryLoop_exhausted [of 5 ?fn 0] assms(3) have "retryLoop ?fn 5 0 = ?fn 5" by simp
  with e assms(1,2) show ?thesis
    by (simp add: response_def isConfigured_def withRateLimitAndRetry_runs)
qed

lemma response_not_retried:
  assumes "apiKey env" and "limiterRejection env = None"
    and "callProvider env (promptMessages userMessage history systemPrompt) 0 = Inl e"
    and "status_of e \<noteq> Some 429"
  shows "response env userMessage history systemPrompt =
           Inl (if status_of e = Some 401 \<or> status_of e = Some 403
                then HttpException OpenAiMisconfiguredException
                       ''Configuracion de OpenAI invalida. Por favor, verifica tu API key.''
                else HttpException OpenAiUnavailableException
                       ''OpenAI no esta disponible. Por favor, intentalo de nuevo mas tarde.'')"
  using assms retryLoop_other_error [of "callProvider env (promptMessages userMessage history systemPrompt)" 0 e 5]
  by (simp add: response_def isConfigured_def withRateLimitAndRetry_runs)

lemma response_queue_full:
  assumes "apiKey env" and "limiterRejection env = Some e" and "status_of e = None"
  shows "response env userMessage history systemPrompt =
           Inl (HttpException OpenAiUnavailableException
                  ''OpenAI no esta disponible. Por favor, intentalo de nuevo mas tarde.'')"
  using assms by (simp add: response_def isConfigured_def withRateLimitAndRetry_dropped)

text \<open>
  C4. The parts of the claim on retries hold (\<open>response_succeeds_after_rate_limits\<close>,
  \<open>response_rate_limited\<close>, \<open>response_not_retried\<close>). The part on the scheduler's queue
  does not: \<^verbatim>\<open>withRateLimitAndRetry\<close> returns the scheduler's promise without awaiting
  it, so its \<^verbatim>\<open>catch\<close> clause, which would turn the overflow into a 429, never sees the
  rejection. With a full queue the rejection passes through unchanged and \<open>response\<close>
  reports it as \<open>OpenAiUnavailableException\<close>, not as \<open>OpenAiRateLimitException\<close>.
\<close>

theorem response_queue_overflow_is_unavailable:
  "withRateLimitAndRetry overflowEnv fn None =
     Inl (JsError ''Error'' ''This job has been dropped by Bottleneck'' None) \<and>
   response overflowEnv ''Hola'' [] ''system'' =
     Inl (HttpException OpenAiUnavailableException
            ''OpenAI no esta disponible. Por favor, intentalo de nuevo mas tarde.'')"
  by (simp add: overflowEnv_def quietEnv_def response_def isConfigured_def
      withRateLimitAndRetry_dropped)

section \<open>Properties of the context cache\<close>

lemma contextWindow_miss:
  assumes "conversationCache s c = None" and "\<not> storeFails env ChatMessageFind"
  shows "contextWindow env s c = Inr (map toHistory (findHistoryMessages s c))"
  using assms
  by (simp add: contextWindow_def getConversationHistory_def alloc_def deref_def Let_def)

lemma contextWindow_hit:
  assumes "cachedWindow s c = Some w"
  shows "contextWindow env s c = Inr w"
  using assms
  by (auto simp: contextWindow_def getConversationHistory_def cachedWindow_def deref_def
      split: option.splits if_splits)

lemma getConversationHistory_caches:
  assumes "conversationCache s c = None" and "\<not> storeFails env ChatMessageFind"
    and "getConversationHistory env s c = Inr (a, s')"
  shows "cachedWindow s' c = Some (map toHistory (findHistoryMessages s c))"
  using assms
  by (auto simp: getConversationHistory_def cachedWindow_def alloc_def Let_def)

lemma createdAt_nthMessage: "map createdAt (map nthMessage xs) = xs"
  by (induction xs) (simp_all add: nthMessage_def)

lemma longConversation_history:
  "findHistoryMessages longConversation 1 = map nthMessage [1..<21]"
proof -
  have all: "filter (\<lambda>m. msg_conversationId m = 1) (map nthMessage [1..<22]) = map nthMessage [1..<22]"
    by (simp add: filter_map comp_def nthMessage_def)
  have "sorted (map createdAt (map nthMessage [1..<22]))"
    by (simp only: createdAt_nthMessage sorted_upt)
  then have "sort_key createdAt (map nthMessage [1..<22]) = map nthMessage [1..<22]"
    by (rule sort_key_id_if_sorted)
  with all show ?thesis
    by (simp add: findHistoryMessages_def longConversation_def take_map)
qed

lemma toHistory_nthMessage_inj: "toHistory (nthMessage i) = toHistory (nthMessage j) \<Longrightarrow> i = j"
proof -
  assume "toHistory (nthMessage i) = toHistory (nthMessage j)"
  then have "replicate i CHR ''m'' = replicate j CHR ''m''"
    by (simp add: toHistory_def nthMessage_def)
  then have "length (replicate i CHR ''m'') = length (replicate j CHR ''m'')" by simp
  then show "i = j" by simp
qed

text \<open>
  C5. On a cache miss the window is built from the first 20 messages in ascending order of
  creation time (\<open>contextWindow_miss\<close>), and it is cached (\<open>getConversationHistory_caches\<close>,
  \<open>contextWindow_hit\<close>). For a conversation with 21 messages that is the 20 oldest: the
  message created first is in the window and the most recent one is not. The comment on
  the query's \<^verbatim>\<open>limit(20)\<close> says the last 20 messages are meant.
\<close>

theorem context_window_is_oldest_twenty:
  "length (filter (\<lambda>m. msg_conversationId m = 1) (chatMessages longConversation)) = 21 \<and>
   conversationCache longConversation 1 = None \<and>
   contextWindow quietEnv longConversation 1 = Inr (map (toHistory \<circ> nthMessage) [1..<21]) \<and>
   toHistory (nthMessage 1) \<in> set (map (toHistory \<circ> nthMessage) [1..<21]) \<and>
   toHistory (nthMessage 21) \<notin> set (map (toHistory \<circ> nthMessage) [1..<21])"
proof -
  have count: "length (filter (\<lambda>m. msg_conversationId m = 1) (chatMessages longConversation)) = 21"
    by (simp add: longConversation_def filter_map comp_def nthMessage_def)
  have miss: "conversationCache longConversation 1 = None"
    by (simp add: longConversation_def)
  have ok: "\<not> storeFails quietEnv ChatMessageFind" by (simp add: quietEnv_def)
  have "contextWindow quietEnv longConversation 1 =
          Inr (map toHistory (findHistoryMessages longConversation 1))"
    using miss ok by (rule contextWindow_miss)
  then have window:
    "contextWindow quietEnv longConversation 1 = Inr (map (toHistory \<circ> nthMessage) [1..<21])"
    by (simp only: longConversation_history map_map)
  have oldest: "toHistory (nthMessage 1) \<in> set (map (toHistory \<circ> nthMessage) [1..<21])"
    by auto
  have newest: "toHistory (nthMessage 21) \<notin> set (map (toHistory \<circ> nthMessage) [1..<21])"
    using toHistory_nthMessage_inj by fastforce
  from count miss window oldest newest show ?thesis by blast
qed

lemma cachedWindow_cong:
  "heap s' = heap s \<Longrightarrow> conversationCache s' = conversationCache s \<Longrightarrow> cachedWindow s' = cachedWindow s"
  by (auto simp: cachedWindow_def fun_eq_iff split: option.splits)

lemma createConversation_window:
  "createConversation env s sid = Inr (c, s') \<Longrightarrow> cachedWindow s' = cachedWindow s"
  by (auto simp: createConversation_def Let_def intro!: cachedWindow_cong split: if_splits)

lemma createMessage_window:
  "createMessage env site s c r content md = Inr (m, s') \<Longrightarrow> cachedWindow s' = cachedWindow s"
  by (auto simp: createMessage_def Let_def intro!: cachedWindow_cong split: if_splits)

lemma findByIdAndUpdate_window:
  "findByIdAndUpdate env s c = Inr s' \<Longrightarrow> cachedWindow s' = cachedWindow s"
  by (auto simp: findByIdAndUpdate_def intro!: cachedWindow_cong split: if_splits)

lemma getConversationHistory_window:
  "getConversationHistory env s c = Inr (a, s') \<Longrightarrow> cachedWindow s k = Some w \<Longrightarrow>
   cachedWindow s' k = Some w"
  by (auto simp: getConversationHistory_def cachedWindow_def alloc_def Let_def
      nth_append split: option.splits if_splits)

lemma sendMessageBody_window:
  assumes "cachedWindow s k = Some w"
  shows "cachedWindow (snd (sendMessageBody env s dto)) k = Some w"
  using assms unfolding sendMessageBody_def Let_def
  by (auto split: sum.splits option.splits prod.splits
      dest!: createConversation_window createMessage_window findByIdAndUpdate_window
      dest: getConversationHistory_window)

lemma sendMessage_window:
  assumes "cachedWindow s k = Some w"
  shows "cachedWindow (snd (sendMessage env s dto)) k = Some w"
  using sendMessageBody_window [OF assms, of env dto]
  by (auto simp: sendMessage_def split: prod.splits sum.splits)

lemma streamResponseSetup_window:
  assumes "cachedWindow s k = Some w"
  shows "streamResponseSetup env s dto = Inl (run, s') \<Longrightarrow> cachedWindow s' k = Some w"
    and "streamResponseSetup env s dto = Inr (c, h, s3) \<Longrightarrow> cachedWindow s3 k = Some w"
  using assms unfolding streamResponseSetup_def Let_def
  by (auto split: sum.splits option.splits prod.splits
      dest!: createConversation_window createMessage_window
      dest: getConversationHistory_window)

lemma streamResponseGenerate_window:
  assumes "cachedWindow s3 k = Some w"
  shows "cachedWindow (snd (streamResponseGenerate env s3 dto c h)) k = Some w"
  using assms unfolding streamResponseGenerate_def Let_def
  by (auto split: sum.splits option.splits prod.splits
      dest!: createMessage_window findByIdAndUpdate_window)

lemma streamResponse_window:
  assumes "cachedWindow s k = Some w"
  shows "cachedWindow (snd (streamResponse env s dto)) k = Some w"
proof (cases "streamResponseSetup env s dto")
  case (Inl failed)
  then show ?thesis
    using streamResponseSetup_window(1) [OF assms, of env dto "fst failed" "snd failed"]
    by (simp add: streamResponse_def)
next
  case (Inr ready)
  obtain c h s3 where ready: "ready = (c, h, s3)" by (cases ready)
  with Inr streamResponseSetup_window(2) [OF assms, of env dto c h s3]
  have "cachedWindow s3 k = Some w" by simp
  from streamResponseGenerate_window [OF this, of env dto c h] Inr ready
  show ?thesis by (simp add: streamResponse_def)
qed

lemma streamMessage_state: "snd (streamMessage env s dto) = snd (streamResponse env s dto)"
  by (simp add: streamMessage_def split: prod.splits option.splits)

lemma streamMessage_window:
  assumes "cachedWindow s k = Some w"
  shows "cachedWindow (snd (streamMessage env s dto)) k = Some w"
  using streamResponse_window [OF assms] by (simp add: streamMessage_state)

lemma startNewConversation_state:
  "snd (startNewConversation env s sid ctx) = snd (startNewConversationBody env s sid ctx)"
  by (simp add: startNewConversation_def split: prod.splits sum.splits)

lemma startNewConversation_other_key:
  assumes "nextId s \<noteq> B" and "cachedWindow s B = Some w"
  shows "cachedWindow (snd (startNewConversation env s sid ctx)) B = Some w"
  using assms
  by (auto simp: startNewConversation_state startNewConversationBody_def createConversation_def
      alloc_def push_def deref_def cachedWindow_def Let_def nth_append
      split: option.splits if_splits)

lemma deleteHistory_state:
  "snd (deleteHistory env s sid c) = snd (deleteHistoryBody env s sid c)"
  by (simp add: deleteHistory_def split: prod.splits sum.splits)

lemma deleteHistory_other_key:
  assumes "A \<noteq> B" and "cachedWindow s B = Some w"
  shows "cachedWindow (snd (deleteHistory env s sid A)) B = Some w"
  using assms
  by (auto simp: deleteHistory_state deleteHistoryBody_def cachedWindow_def Let_def
      split: option.splits if_splits)

lemma startNewConversation_fresh_array:
  assumes "fst (startNewConversation env s sid ctx) = Inr conv"
  shows "conv_id conv = nextId s \<and>
         conversationCache (snd (startNewConversation env s sid ctx)) (conv_id conv) =
           Some (length (heap s)) \<and>
         heap (snd (startNewConversation env s sid ctx)) = heap s @ [seedWindow ctx]"
  using assms
  by (auto simp: startNewConversation_def startNewConversationBody_def createConversation_def
      alloc_def push_def deref_def Let_def seedWindow_def
      split: option.splits if_splits prod.splits sum.splits)

text \<open>
  C1. Let \<open>B\<close> be a conversation with a cached window \<open>w\<close> and \<open>A\<close> another conversation.
  \<open>startNewConversation\<close>, when \<open>A\<close> is the conversation it creates, and
  \<open>deleteHistory\<close> of \<open>A\<close> leave \<open>B\<close>'s window \<open>w\<close>, whatever the store does during the call.
  When \<open>startNewConversation\<close> succeeds, the entry of the new conversation is the address of
  an array allocated by this call: the heap is the old heap, with every array unchanged,
  followed by the new array.
\<close>

theorem cache_reset_leaves_other_entries:
  assumes "A \<noteq> B" and "cachedWindow s B = Some w"
  shows "(nextId s = A \<longrightarrow>
            cachedWindow (snd (startNewConversation env s studentId initialContext)) B = Some w) \<and>
         cachedWindow (snd (deleteHistory env s studentId A)) B = Some w \<and>
         (fst (startNewConversation env s studentId initialContext) = Inr conv \<longrightarrow>
            conv_id conv = nextId s \<and>
            conversationCache (snd (startNewConversation env s studentId initialContext)) (conv_id conv) =
              Some (length (heap s)) \<and>
            heap (snd (startNewConversation env s studentId initialContext)) =
              heap s @ [seedWindow initialContext])"
  using assms startNewConversation_other_key [of s B w env studentId initialContext]
    deleteHistory_other_key [of A B s w env studentId]
    startNewConversation_fresh_array [of env s studentId initialContext conv]
  by blast

theorem cache_reset_leaves_other_entries_witness:
  "(6 :: oid) \<noteq> 5 \<and> (4 :: oid) \<noteq> 5 \<and>
   cachedWindow twoCached 5 = Some [\<lparr> h_role = System, h_content = ''second'' \<rparr>] \<and>
   nextId twoCached = 6 \<and>
   cachedWindow (snd (startNewConversation quietEnv twoCached 3 (Some ''ctx''))) 5 =
     Some [\<lparr> h_role = System, h_content = ''second'' \<rparr>] \<and>
   cachedWindow (snd (deleteHistory quietEnv twoCached 3 4)) 5 =
     Some [\<lparr> h_role = System, h_content = ''second'' \<rparr>] \<and>
   cachedWindow (snd (deleteHistory quietEnv twoCached 3 4)) 4 = None \<and>
   heap (snd (startNewConversation quietEnv twoCached 3 (Some ''ctx''))) =
     heap twoCached @ [seedWindow (Some ''ctx'')]"
proof -
  have B: "cachedWindow twoCached 5 = Some [\<lparr> h_role = System, h_content = ''second'' \<rparr>]"
    by (simp add: cachedWindow_def twoCached_def)
  have next6: "nextId twoCached = 6" by (simp add: twoCached_def)
  have started: "fst (startNewConversation quietEnv twoCached 3 (Some ''ctx'')) =
      Inr \<lparr> conv_id = 6, conv_studentId = 3, title = ''Nueva conversacion'', isActive = True,
            lastMessageAt = 2, messageCount = 0 \<rparr>"
    by (simp add: startNewConversation_def startNewConversationBody_def createConversation_def
        alloc_def push_def deref_def Let_def twoCached_def quietEnv_def defaultMessageCount_def)
  have deleted: "cachedWindow (snd (deleteHistory quietEnv twoCached 3 4)) 4 = None"
    by (simp add: deleteHistory_def deleteHistoryBody_def cachedWindow_def Let_def twoCached_def
        quietEnv_def)
  have ne: "(6 :: oid) \<noteq> 5" "(4 :: oid) \<noteq> 5" by simp_all
  from cache_reset_leaves_other_entries [OF ne(1) B, of quietEnv 3 "Some ''ctx''"
         "\<lparr> conv_id = 6, conv_studentId = 3, title = ''Nueva conversacion'', isActive = True,
            lastMessageAt = 2, messageCount = 0 \<rparr>"]
       cache_reset_leaves_other_entries [OF ne(2) B, of quietEnv 3 "Some ''ctx''"
         "\<lparr> conv_id = 6, conv_studentId = 3, title = ''Nueva conversacion'', isActive = True,
            lastMessageAt = 2, messageCount = 0 \<rparr>"]
       B next6 started deleted ne
  show ?thesis by simp
qed

lemma serve_window:
  "cachedWindow s c = Some w \<Longrightarrow> cachedWindow (serve s request) c = Some w"
  by (cases request) (simp_all add: sendMessage_window streamMessage_window)

lemma serve_all_window:
  "cachedWindow s c = Some w \<Longrightarrow> cachedWindow (foldl serve s requests) c = Some w"
  by (induction requests arbitrary: s) (simp_all add: serve_window)

section \<open>Properties of sendMessage and streamMessage\<close>

lemma createConversation_messages:
  "createConversation env s sid = Inr (c, s') \<Longrightarrow> chatMessages s' = chatMessages s"
  by (auto simp: createConversation_def Let_def split: if_splits)

lemma createMessage_messages:
  "createMessage env site s c r content md = Inr (m, s') \<Longrightarrow>
   chatMessages s' = chatMessages s @ [m] \<and> msg_conversationId m = c \<and> msg_role m = r \<and>
   msg_content m = content \<and> msg_metadata m = md"
  by (auto simp: createMessage_def Let_def split: if_splits)

lemma findByIdAndUpdate_messages:
  "findByIdAndUpdate env s c = Inr s' \<Longrightarrow> chatMessages s' = chatMessages s"
  by (auto simp: findByIdAndUpdate_def split: if_splits)

lemma getConversationHistory_messages:
  "getConversationHistory env s c = Inr (a, s') \<Longrightarrow> chatMessages s' = chatMessages s"
  by (auto simp: getConversationHistory_def alloc_def Let_def split: option.splits if_splits)

lemma sendMessageBody_persists:
  assumes "sendMessageBody env s dto = (Inr r, s')"
  shows "chatMessages s' = chatMessages s @ [res_userMessage r, res_assistantMessage r] \<and>
         msg_conversationId (res_userMessage r) = res_conversationId r \<and>
         msg_conversationId (res_assistantMessage r) = res_conversationId r \<and>
         msg_role (res_userMessage r) = User \<and> msg_content (res_userMessage r) = dto_message dto \<and>
         msg_role (res_assistantMessage r) = Assistant"
  using assms unfolding sendMessageBody_def Let_def
  by (auto split: sum.splits option.splits prod.splits
      dest!: createConversation_messages createMessage_messages findByIdAndUpdate_messages
        getConversationHistory_messages)

lemma sendMessage_persists:
  assumes "sendMessage env s dto = (Inr r, s')"
  shows "chatMessages s' = chatMessages s @ [res_userMessage r, res_assistantMessage r] \<and>
         msg_conversationId (res_userMessage r) = res_conversationId r \<and>
         msg_conversationId (res_assistantMessage r) = res_conversationId r \<and>
         msg_role (res_userMessage r) = User \<and> msg_content (res_userMessage r) = dto_message dto \<and>
         msg_role (res_assistantMessage r) = Assistant"
proof -
  from assms have "sendMessageBody env s dto = (Inr r, s')"
    by (auto simp: sendMessage_def split: prod.splits sum.splits)
  then show ?thesis by (rule sendMessageBody_persists)
qed

lemma createConversation_fails:
  "createConversation env s sid = Inl e \<Longrightarrow> storeFails env ConversationCreate \<and> e = storeError"
  by (auto simp: createConversation_def Let_def split: if_splits)

lemma findById_fails:
  "findById env s c = Inl e \<Longrightarrow> storeFails env ConversationFindById \<and> e = storeError"
  by (auto simp: findById_def split: if_splits)

text \<open>The shape of what the two parts of streamResponse return.\<close>

lemma streamResponseSetup_failed:
  assumes "streamResponseSetup env s dto = Inl ((events, failure), s')"
  shows "failure \<noteq> None \<and>
         ((events = [] \<and> failure = Some storeError) \<or> (\<exists>c. events = [ConversationIdFrame c])) \<and>
         (\<not> storeFails env ConversationFindById \<and> \<not> storeFails env ConversationCreate \<longrightarrow>
            events \<noteq> []) \<and>
         filter (\<lambda>m. msg_role m = Assistant) (chatMessages s') =
           filter (\<lambda>m. msg_role m = Assistant) (chatMessages s)"
  using assms unfolding streamResponseSetup_def Let_def
  by (auto split: sum.splits option.splits prod.splits if_splits
      dest!: createMessage_messages getConversationHistory_messages createConversation_messages
        createConversation_fails findById_fails)

lemma streamResponseSetup_ready:
  assumes "streamResponseSetup env s dto = Inr (conversation, history, s3)"
  shows "\<exists>u. chatMessages s3 = chatMessages s @ [u] \<and> msg_role u = User \<and>
             msg_content u = dto_message dto \<and> msg_conversationId u = conv_id conversation"
  using assms unfolding streamResponseSetup_def Let_def
  by (auto split: sum.splits option.splits prod.splits
      dest!: createConversation_messages createMessage_messages getConversationHistory_messages)

lemma streamResponseGenerate_raises:
  assumes "generateStreamResponseWithRAG env (dto_message dto) (deref s3 history)
             (retrieveContext env (dto_message dto)) = (tokens, Some e)"
  shows "streamResponseGenerate env s3 dto conversation history =
           ((ConversationIdFrame (conv_id conversation) # map TokenFrame tokens, Some e), s3)"
  using assms by (simp add: streamResponseGenerate_def)

lemma streamResponseGenerate_shape:
  assumes "streamResponseGenerate env s3 dto conversation history = ((events, failure), s')"
  shows "\<exists>tokens. (failure \<noteq> None \<and> events = ConversationIdFrame (conv_id conversation) # map TokenFrame tokens) \<or>
           (\<exists>a. failure = None \<and>
              events = ConversationIdFrame (conv_id conversation) # map TokenFrame tokens @ [DoneFrame (msg_id a)] \<and>
              chatMessages s' = chatMessages s3 @ [a] \<and> msg_role a = Assistant \<and>
              msg_content a = concat tokens \<and> msg_conversationId a = conv_id conversation)"
  using assms unfolding streamResponseGenerate_def Let_def
  by (auto split: sum.splits option.splits prod.splits
      dest!: createMessage_messages findByIdAndUpdate_messages)

lemma nextIdFresh_messages:
  "nextIdFresh s \<Longrightarrow> filter (\<lambda>m. msg_conversationId m = nextId s) (chatMessages s) = []"
  by (auto simp: nextIdFresh_def filter_empty_conv)

lemma nextIdFresh_conversations:
  "nextIdFresh s \<Longrightarrow> map (\<lambda>cv. if conv_id cv = nextId s then f cv else cv) (conversations s) = conversations s"
  by (auto simp: nextIdFresh_def intro: map_idI)

text \<open>
  C2. When no store call fails and the generation call succeeds, \<open>sendMessage\<close> without a
  conversation id creates a conversation under the next id, persists exactly two messages,
  the user message with the content sent and then the assistant message with the reply and
  its metadata, leaves the new conversation with its message count raised by 2, and
  returns the conversation id and the two messages. (The history handed to the generation
  call is the window rebuilt after the user message was persisted, so it is that message.)
\<close>

theorem sendMessage_creates_conversation:
  assumes store: "\<forall>site. \<not> storeFails env site"
    and fresh: "nextIdFresh s"
    and new: "dto_conversationId dto = None"
    and gen: "generateResponseWithRAG env (dto_message dto)
                [\<lparr> h_role = User, h_content = dto_message dto \<rparr>]
                (retrieveContext env (dto_message dto)) = Inr ai"
  shows "fst (sendMessage env s dto) =
           Inr \<lparr> res_conversationId = nextId s,
                 res_userMessage =
                   \<lparr> msg_id = nextId s + 1, msg_conversationId = nextId s, msg_role = User,
                     msg_content = dto_message dto, msg_metadata = None, createdAt = clock s + 1 \<rparr>,
                 res_assistantMessage =
                   \<lparr> msg_id = nextId s + 2, msg_conversationId = nextId s, msg_role = Assistant,
                     msg_content = ai_content ai,
                     msg_metadata = Some \<lparr> tokensUsed = ai_tokensUsed ai, model = ai_model ai \<rparr>,
                     createdAt = clock s + 2 \<rparr> \<rparr> \<and>
         conversations (snd (sendMessage env s dto)) =
           conversations s @
             [\<lparr> conv_id = nextId s, conv_studentId = dto_studentId dto,
                title = ''Nueva conversacion'', isActive = True, lastMessageAt = clock s + 3,
                messageCount = defaultMessageCount + 2 \<rparr>] \<and>
         chatMessages (snd (sendMessage env s dto)) =
           chatMessages s @
             [\<lparr> msg_id = nextId s + 1, msg_conversationId = nextId s, msg_role = User,
                msg_content = dto_message dto, msg_metadata = None, createdAt = clock s + 1 \<rparr>,
              \<lparr> msg_id = nextId s + 2, msg_conversationId = nextId s, msg_role = Assistant,
                msg_content = ai_content ai,
                msg_metadata = Some \<lparr> tokensUsed = ai_tokensUsed ai, model = ai_model ai \<rparr>,
                createdAt = clock s + 2 \<rparr>]"
proof -
  have miss: "conversationCache s (nextId s) = None"
    using fresh by (simp add: nextIdFresh_def)
  show ?thesis
    using store new gen miss nextIdFresh_messages [OF fresh]
      nextIdFresh_conversations [OF fresh]
    by (simp add: sendMessage_def sendMessageBody_def findById_def createConversation_def
        createMessage_def getConversationHistory_def findHistoryMessages_def toHistory_def
        findByIdAndUpdate_def alloc_def deref_def Let_def)
qed

lemma streamResponse_shape:
  assumes "streamResponse env s dto = ((events, failure), s')"
  shows "(failure \<noteq> None \<or> (events \<noteq> [] \<and> isTerminalFrame (last events))) \<and>
         (events = [] \<longrightarrow> failure = Some storeError) \<and>
         (events \<noteq> [] \<longrightarrow> isConversationIdFrame (hd events)) \<and>
         (\<not> storeFails env ConversationFindById \<and> \<not> storeFails env ConversationCreate \<longrightarrow>
            events \<noteq> [])"
proof (cases "streamResponseSetup env s dto")
  case (Inl failed)
  with assms have "streamResponseSetup env s dto = Inl ((events, failure), s')"
    by (simp add: streamResponse_def)
  from streamResponseSetup_failed [OF this] show ?thesis by auto
next
  case (Inr ready)
  obtain c h s3 where ready: "ready = (c, h, s3)" by (cases ready)
  with Inr assms have "streamResponseGenerate env s3 dto c h = ((events, failure), s')"
    by (simp add: streamResponse_def)
  from streamResponseGenerate_shape [OF this] show ?thesis by auto
qed

lemma streamMessage_frames_shape:
  "fst (streamMessage env s dto) \<noteq> [] \<and>
   isTerminalFrame (last (fst (streamMessage env s dto))) \<and>
   (\<not> isConversationIdFrame (hd (fst (streamMessage env s dto))) \<longrightarrow>
      fst (streamMessage env s dto) = [ErrorFrame (message_of storeError)]) \<and>
   (\<not> storeFails env ConversationFindById \<and> \<not> storeFails env ConversationCreate \<longrightarrow>
      isConversationIdFrame (hd (fst (streamMessage env s dto))))"
proof -
  obtain events failure s' where run: "streamResponse env s dto = ((events, failure), s')"
    by (metis surj_pair)
  note shape = streamResponse_shape [OF run]
  show ?thesis
  proof (cases failure)
    case None
    with run have "fst (streamMessage env s dto) = events" by (simp add: streamMessage_def)
    with shape None show ?thesis by auto
  next
    case (Some e)
    with run have frames: "fst (streamMessage env s dto) = events @ [ErrorFrame (message_of e)]"
      by (simp add: streamMessage_def)
    show ?thesis
    proof (cases "events = []")
      case True
      with shape Some have "e = storeError" by simp
      with True frames shape show ?thesis by auto
    next
      case False
      with shape have "isConversationIdFrame (hd events)" by simp
      with False frames show ?thesis by (cases events) auto
    qed
  qed
qed

lemma streamMessage_midflight:
  assumes prep: "streamResponseSetup env s dto = Inr (conversation, history, s3)"
    and raised: "generateStreamResponseWithRAG env (dto_message dto) (deref s3 history)
                   (retrieveContext env (dto_message dto)) = (tokens, Some e)"
  shows "streamMessage env s dto =
           (ConversationIdFrame (conv_id conversation) # map TokenFrame tokens @
              [ErrorFrame (message_of e)], s3) \<and>
         filter (\<lambda>m. msg_role m = Assistant) (chatMessages s3) =
           filter (\<lambda>m. msg_role m = Assistant) (chatMessages s)"
proof -
  from streamResponseSetup_ready [OF prep] obtain u where
    "chatMessages s3 = chatMessages s @ [u]" "msg_role u = User" by blast
  then have "filter (\<lambda>m. msg_role m = Assistant) (chatMessages s3) =
             filter (\<lambda>m. msg_role m = Assistant) (chatMessages s)" by simp
  moreover have "streamMessage env s dto =
           (ConversationIdFrame (conv_id conversation) # map TokenFrame tokens @
              [ErrorFrame (message_of e)], s3)"
    using prep streamResponseGenerate_raises [OF raised, of conversation]
    by (simp add: streamMessage_def streamResponse_def)
  ultimately show ?thesis by simp
qed

text \<open>
  C3, amended. The frames \<open>streamMessage\<close> writes are never empty and end with a
  \<open>done\<close> or an \<open>error\<close> frame. The first frame carries the conversation id unless the
  conversation could not be resolved, in which case the only frame is the error frame of
  the store's failure; it does whenever the store answers the lookup and the creation of
  the conversation. When the fragment stream raises, the frames are the conversation id,
  one token frame for every fragment received, and the error frame; the state is the one
  reached before generation, with no assistant message added.
\<close>

theorem streamMessage_frames:
  "fst (streamMessage env s dto) \<noteq> [] \<and>
   isTerminalFrame (last (fst (streamMessage env s dto))) \<and>
   (\<not> isConversationIdFrame (hd (fst (streamMessage env s dto))) \<longrightarrow>
      fst (streamMessage env s dto) = [ErrorFrame (message_of storeError)]) \<and>
   (\<not> storeFails env ConversationFindById \<and> \<not> storeFails env ConversationCreate \<longrightarrow>
      isConversationIdFrame (hd (fst (streamMessage env s dto)))) \<and>
   (streamResponseSetup env s dto = Inr (conversation, history, s3) \<and>
    generateStreamResponseWithRAG env (dto_message dto) (deref s3 history)
      (retrieveContext env (dto_message dto)) = (tokens, Some e) \<longrightarrow>
      streamMessage env s dto =
        (ConversationIdFrame (conv_id conversation) # map TokenFrame tokens @
           [ErrorFrame (message_of e)], s3) \<and>
      filter (\<lambda>m. msg_role m = Assistant) (chatMessages s3) =
        filter (\<lambda>m. msg_role m = Assistant) (chatMessages s))"
  using streamMessage_frames_shape [of env s dto]
    streamMessage_midflight [of env s dto conversation history s3 tokens e]
  by blast

lemma streamMessage_done:
  assumes "streamMessage env s dto = (frames, s')" and "last frames = DoneFrame mid"
  shows "\<exists>u a. chatMessages s' = chatMessages s @ [u, a] \<and> msg_role u = User \<and>
               msg_content u = dto_message dto \<and> msg_role a = Assistant \<and> msg_id a = mid \<and>
               msg_conversationId a = msg_conversationId u"
proof -
  obtain events failure where run: "streamResponse env s dto = ((events, failure), s')"
    using assms(1) by (auto simp: streamMessage_def split: prod.splits option.splits)
  have none: "failure = None"
  proof (rule ccontr)
    assume "failure \<noteq> None"
    then obtain e where "failure = Some e" by blast
    with run assms(1) have "frames = events @ [ErrorFrame (message_of e)]"
      by (simp add: streamMessage_def)
    with assms(2) show False by simp
  qed
  with run assms(1) have frames: "frames = events" by (simp add: streamMessage_def)
  show ?thesis
  proof (cases "streamResponseSetup env s dto")
    case (Inl failed)
    with run have "streamResponseSetup env s dto = Inl ((events, failure), s')"
      by (simp add: streamResponse_def)
    from streamResponseSetup_failed [OF this] none show ?thesis by simp
  next
    case (Inr ready)
    obtain c h s3 where ready: "ready = (c, h, s3)" by (cases ready)
    with Inr have prep: "streamResponseSetup env s dto = Inr (c, h, s3)" by simp
    with run have gen: "streamResponseGenerate env s3 dto c h = ((events, failure), s')"
      by (simp add: streamResponse_def)
    from streamResponseSetup_ready [OF prep] obtain u where
      u: "chatMessages s3 = chatMessages s @ [u]" "msg_role u = User"
         "msg_content u = dto_message dto" "msg_conversationId u = conv_id c" by blast
    from streamResponseGenerate_shape [OF gen] none obtain tokens a where
      a: "events = ConversationIdFrame (conv_id c) # map TokenFrame tokens @ [DoneFrame (msg_id a)]"
         "chatMessages s' = chatMessages s3 @ [a]" "msg_role a = Assistant"
         "msg_conversationId a = conv_id c" by auto
    from a(1) frames assms(2) have "msg_id a = mid" by simp
    with u a show ?thesis by auto
  qed
qed

lemma trim_ok: "trim ''ok'' = ''ok''"
  by (simp add: trim_def isSpace_def)

lemma generateResponseWithRAG_quiet:
  "generateResponseWithRAG quietEnv message history relevantContext =
     Inr \<lparr> ai_content = ''ok'', ai_tokensUsed = Some 5, ai_model = Some ''gpt-4'' \<rparr>"
proof -
  have "callProvider quietEnv messages 0 =
          Inr \<lparr> ai_content = ''ok'', ai_tokensUsed = Some 5, ai_model = Some ''gpt-4'' \<rparr>"
    for messages
    by (simp add: callProvider_def quietEnv_def trim_ok)
  then show ?thesis
    by (simp add: generateResponseWithRAG_def response_def isConfigured_def
        withRateLimitAndRetry_runs retryLoop_success quietEnv_def)
qed

theorem sendMessage_creates_conversation_witness:
  "(\<forall>site. \<not> storeFails quietEnv site) \<and> nextIdFresh emptyState \<and>
   dto_conversationId hiDto = None \<and>
   fst (sendMessage quietEnv emptyState hiDto) =
     Inr \<lparr> res_conversationId = 0,
           res_userMessage =
             \<lparr> msg_id = 1, msg_conversationId = 0, msg_role = User, msg_content = ''Hola'',
               msg_metadata = None, createdAt = 1 \<rparr>,
           res_assistantMessage =
             \<lparr> msg_id = 2, msg_conversationId = 0, msg_role = Assistant, msg_content = ''ok'',
               msg_metadata = Some \<lparr> tokensUsed = Some 5, model = Some ''gpt-4'' \<rparr>,
               createdAt = 2 \<rparr> \<rparr> \<and>
   map messageCount (conversations (snd (sendMessage quietEnv emptyState hiDto))) = [2] \<and>
   length (chatMessages (snd (sendMessage quietEnv emptyState hiDto))) = 2"
proof -
  have store: "\<forall>site. \<not> storeFails quietEnv site" by (simp add: quietEnv_def)
  have fresh: "nextIdFresh emptyState" by (simp add: nextIdFresh_def emptyState_def)
  have new: "dto_conversationId hiDto = None" by (simp add: hiDto_def)
  have gen: "generateResponseWithRAG quietEnv (dto_message hiDto)
               [\<lparr> h_role = User, h_content = dto_message hiDto \<rparr>]
               (retrieveContext quietEnv (dto_message hiDto)) =
             Inr \<lparr> ai_content = ''ok'', ai_tokensUsed = Some 5, ai_model = Some ''gpt-4'' \<rparr>"
    by (rule generateResponseWithRAG_quiet)
  from sendMessage_creates_conversation [OF store fresh new gen] store fresh new
  show ?thesis
    by (simp add: emptyState_def hiDto_def defaultMessageCount_def)
qed

text \<open>
  C3, as stated, fails when the store rejects the creation of the conversation: the
  generator raises before it yields anything, and the controller writes the error frame
  alone, so the first frame does not carry a conversation id.
\<close>

theorem streamMessage_store_down_counterexample:
  "streamMessage storeDownEnv emptyState hiDto = ([ErrorFrame ''store call rejected''], emptyState) \<and>
   \<not> isConversationIdFrame (hd (fst (streamMessage storeDownEnv emptyState hiDto)))"
  by (simp add: streamMessage_def streamResponse_def streamResponseSetup_def
      createConversation_def storeDownEnv_def quietEnv_def hiDto_def storeError_def)

lemma brokenStream_setup:
  "streamResponseSetup brokenStreamEnv emptyState hiDto = Inr (conversationZero, 0, afterSetup)"
  by (simp add: streamResponseSetup_def createConversation_def createMessage_def
      getConversationHistory_def findHistoryMessages_def toHistory_def alloc_def Let_def
      brokenStreamEnv_def quietEnv_def emptyState_def hiDto_def conversationZero_def
      afterSetup_def defaultMessageCount_def numeral_2_eq_2)

lemma brokenStream_raises:
  "generateStreamResponseWithRAG brokenStreamEnv message history relevantContext =
     ([''par'', ''tial''],
      Some (HttpException OpenAiUnavailableException
              ''Error al generar la respuesta en streaming. Intentalo de nuevo.''))"
  by (simp add: generateStreamResponseWithRAG_def stream_def brokenStreamEnv_def quietEnv_def)

theorem streamMessage_frames_witness:
  "\<not> storeFails brokenStreamEnv ConversationFindById \<and>
   \<not> storeFails brokenStreamEnv ConversationCreate \<and>
   streamResponseSetup brokenStreamEnv emptyState hiDto = Inr (conversationZero, 0, afterSetup) \<and>
   generateStreamResponseWithRAG brokenStreamEnv (dto_message hiDto) (deref afterSetup 0)
      (retrieveContext brokenStreamEnv (dto_message hiDto)) =
     ([''par'', ''tial''],
      Some (HttpException OpenAiUnavailableException
              ''Error al generar la respuesta en streaming. Intentalo de nuevo.'')) \<and>
   streamMessage brokenStreamEnv emptyState hiDto =
     ([ConversationIdFrame 0, TokenFrame ''par'', TokenFrame ''tial'',
       ErrorFrame ''Error al generar la respuesta en streaming. Intentalo de nuevo.''],
      afterSetup) \<and>
   isConversationIdFrame (hd (fst (streamMessage brokenStreamEnv emptyState hiDto))) \<and>
   isTerminalFrame (last (fst (streamMessage brokenStreamEnv emptyState hiDto))) \<and>
   filter (\<lambda>m. msg_role m = Assistant) (chatMessages afterSetup) =
     filter (\<lambda>m. msg_role m = Assistant) (chatMessages emptyState)"
proof -
  have ok: "\<not> storeFails brokenStreamEnv ConversationFindById"
           "\<not> storeFails brokenStreamEnv ConversationCreate"
    by (simp_all add: brokenStreamEnv_def quietEnv_def)
  note run = streamMessage_frames [of brokenStreamEnv emptyState hiDto conversationZero 0 afterSetup
      "[''par'', ''tial'']"
      "HttpException OpenAiUnavailableException
         ''Error al generar la respuesta en streaming. Intentalo de nuevo.''"]
  from run ok brokenStream_setup brokenStream_raises show ?thesis
    by (simp add: conversationZero_def)
qed

text \<open>
  C10. If conversation \<open>c\<close> has the cached window \<open>w\<close>, then after \<open>sendMessage\<close>, after
  \<open>streamMessage\<close>, and after any sequence of send and stream requests, whether they succeed
  or fail, \<open>c\<close> still has the cached window \<open>w\<close>, and a context load for \<open>c\<close> returns \<open>w\<close>.
  The messages a successful send or stream persists are appended to the store only: the
  user and the assistant message are the two new messages of the collection.
\<close>

theorem cached_window_not_refreshed:
  assumes "cachedWindow s c = Some w"
  shows "cachedWindow (snd (sendMessage env s dto)) c = Some w \<and>
         cachedWindow (snd (streamMessage env s dto)) c = Some w \<and>
         cachedWindow (foldl serve s requests) c = Some w \<and>
         contextWindow env' (foldl serve s requests) c = Inr w \<and>
         (sendMessage env s dto = (Inr r, s') \<longrightarrow>
            chatMessages s' = chatMessages s @ [res_userMessage r, res_assistantMessage r] \<and>
            msg_conversationId (res_userMessage r) = res_conversationId r \<and>
            msg_conversationId (res_assistantMessage r) = res_conversationId r) \<and>
         (streamMessage env s dto = (frames, s'') \<and> last frames = DoneFrame mid \<longrightarrow>
            (\<exists>u a. chatMessages s'' = chatMessages s @ [u, a] \<and> msg_role u = User \<and>
                   msg_content u = dto_message dto \<and> msg_role a = Assistant \<and> msg_id a = mid \<and>
                   msg_conversationId a = msg_conversationId u))"
proof -
  have later: "cachedWindow (foldl serve s requests) c = Some w"
    using assms by (rule serve_all_window)
  have load: "contextWindow env' (foldl serve s requests) c = Inr w"
    using later by (rule contextWindow_hit)
  have sent: "sendMessage env s dto = (Inr r, s') \<longrightarrow>
            chatMessages s' = chatMessages s @ [res_userMessage r, res_assistantMessage r] \<and>
            msg_conversationId (res_userMessage r) = res_conversationId r \<and>
            msg_conversationId (res_assistantMessage r) = res_conversationId r"
    using sendMessage_persists [of env s dto r s'] by blast
  have streamed: "streamMessage env s dto = (frames, s'') \<and> last frames = DoneFrame mid \<longrightarrow>
            (\<exists>u a. chatMessages s'' = chatMessages s @ [u, a] \<and> msg_role u = User \<and>
                   msg_content u = dto_message dto \<and> msg_role a = Assistant \<and> msg_id a = mid \<and>
                   msg_conversationId a = msg_conversationId u)"
    using streamMessage_done [of env s dto frames s'' mid] by blast
  from sendMessage_window [OF assms, of env dto] streamMessage_window [OF assms, of env dto]
    later load sent streamed
  show ?thesis by blast
qed

lemma quietEnv_store: "storeFails quietEnv site = False"
  by (simp add: quietEnv_def)

theorem cached_window_not_refreshed_witness:
  "cachedWindow twoCached 5 = Some secondWindow \<and>
   fst (sendMessage quietEnv twoCached dtoFive) = Inr replyFive \<and>
   res_conversationId replyFive = 5 \<and>
   cachedWindow (snd (sendMessage quietEnv twoCached dtoFive)) 5 = Some secondWindow \<and>
   chatMessages (snd (sendMessage quietEnv twoCached dtoFive)) =
     chatMessages twoCached @ [res_userMessage replyFive, res_assistantMessage replyFive] \<and>
   cachedWindow (snd (streamMessage quietEnv twoCached dtoFive)) 5 = Some secondWindow \<and>
   contextWindow quietEnv
     (foldl serve twoCached [SendRequest quietEnv dtoFive, StreamRequest quietEnv dtoFive]) 5 =
     Inr secondWindow"
proof -
  have cached: "cachedWindow twoCached 5 = Some secondWindow"
    by (simp add: cachedWindow_def twoCached_def secondWindow_def)
  have reply: "fst (sendMessage quietEnv twoCached dtoFive) = Inr replyFive"
    by (simp add: sendMessage_def sendMessageBody_def findById_def createMessage_def
        getConversationHistory_def findByIdAndUpdate_def generateResponseWithRAG_quiet Let_def
        twoCached_def dtoFive_def replyFive_def quietEnv_store)
  then have run: "sendMessage quietEnv twoCached dtoFive =
      (Inr replyFive, snd (sendMessage quietEnv twoCached dtoFive))"
    by (metis prod.collapse)
  from cached_window_not_refreshed [OF cached, of quietEnv dtoFive
      "[SendRequest quietEnv dtoFive, StreamRequest quietEnv dtoFive]" quietEnv
      replyFive "snd (sendMessage quietEnv twoCached dtoFive)"] cached reply run
  show ?thesis by (simp add: replyFive_def)
qed

section \<open>Retrieval failures\<close>

lemma emptyKnowledge_fields [simp]:
  "apiKey (emptyKnowledge env) = apiKey env"
  "knowledgeChunks (emptyKnowledge env) = []"
  "storeFails (emptyKnowledge env) site = (site \<noteq> KnowledgeChunkFind \<and> storeFails env site)"
  "embeddingsCreate (emptyKnowledge env) = embeddingsCreate env"
  "responsesCreate (emptyKnowledge env) = responsesCreate env"
  "responsesStream (emptyKnowledge env) = responsesStream env"
  "limiterRejection (emptyKnowledge env) = limiterRejection env"
  "baseSystemPrompt (emptyKnowledge env) = baseSystemPrompt env"
  "placeholderReply (emptyKnowledge env) = placeholderReply env"
  by (simp_all add: emptyKnowledge_def)

lemma searchSimilar_emptyKnowledge: "searchSimilar (emptyKnowledge env) query options = Inr []"
  by (simp add: searchSimilar_def findChunks_def Let_def split: sum.splits prod.splits option.splits)

lemma retrieveContext_emptyKnowledge: "retrieveContext (emptyKnowledge env) message = []"
  by (simp add: retrieveContext_def searchSimilar_emptyKnowledge)

lemma retrieveContext_failed:
  "searchSimilar env message ragOptions = Inl e \<Longrightarrow> retrieveContext env message = []"
  by (simp add: retrieveContext_def)

lemma searchSimilar_embedding_failed:
  "createEmbedding env query = Inl e \<Longrightarrow> searchSimilar env query options = Inr []"
  by (simp add: searchSimilar_def Let_def)

lemma emptyKnowledge_store [simp]:
  "findById (emptyKnowledge env) = findById env"
  "createConversation (emptyKnowledge env) = createConversation env"
  "createMessage (emptyKnowledge env) ChatMessageCreateUser = createMessage env ChatMessageCreateUser"
  "createMessage (emptyKnowledge env) ChatMessageCreateAssistant =
     createMessage env ChatMessageCreateAssistant"
  "findByIdAndUpdate (emptyKnowledge env) = findByIdAndUpdate env"
  "getConversationHistory (emptyKnowledge env) = getConversationHistory env"
  by (simp_all add: fun_eq_iff findById_def createConversation_def createMessage_def
      findByIdAndUpdate_def getConversationHistory_def)

lemma emptyKnowledge_generation [simp]:
  "generateResponseWithRAG (emptyKnowledge env) = generateResponseWithRAG env"
  "generateStreamResponseWithRAG (emptyKnowledge env) = generateStreamResponseWithRAG env"
proof -
  have provider: "callProvider (emptyKnowledge env) = callProvider env"
    by (simp add: fun_eq_iff callProvider_def)
  have limited: "withRateLimitAndRetry (emptyKnowledge env) fn optMaxRetries =
                 withRateLimitAndRetry env fn optMaxRetries"
    for fn :: "nat \<Rightarrow> exn + AiResponse" and optMaxRetries
    by (simp add: withRateLimitAndRetry_def schedule_def)
  show "generateResponseWithRAG (emptyKnowledge env) = generateResponseWithRAG env"
    by (simp add: fun_eq_iff generateResponseWithRAG_def response_def isConfigured_def
        generatePlaceholderResponse_def provider limited)
  show "generateStreamResponseWithRAG (emptyKnowledge env) = generateStreamResponseWithRAG env"
    by (simp add: fun_eq_iff generateStreamResponseWithRAG_def stream_def
        generatePlaceholderResponse_def)
qed

lemma sendMessage_without_retrieval:
  assumes "retrieveContext env (dto_message dto) = []"
  shows "sendMessage env s dto = sendMessage (emptyKnowledge env) s dto"
  using assms
  by (simp add: sendMessage_def sendMessageBody_def retrieveContext_emptyKnowledge Let_def
      cong: sum.case_cong prod.case_cong option.case_cong)

lemma streamMessage_without_retrieval:
  assumes "retrieveContext env (dto_message dto) = []"
  shows "streamMessage env s dto = streamMessage (emptyKnowledge env) s dto"
  using assms
  by (simp add: streamMessage_def streamResponse_def streamResponseSetup_def
      streamResponseGenerate_def retrieveContext_emptyKnowledge Let_def
      cong: sum.case_cong prod.case_cong option.case_cong)

text \<open>
  C6. When the embedding step fails, \<open>searchSimilar\<close> returns the empty list. When the
  retrieval call made by \<open>sendMessage\<close> or \<open>streamMessage\<close> fails, the grounding context is
  empty and the operation runs exactly as it does against an empty knowledge base, where
  the search succeeds with no result: the same outcome, the same frames, the same state.
\<close>

theorem retrieval_failure_is_recovered:
  "(createEmbedding env query = Inl e \<longrightarrow> searchSimilar env query options = Inr []) \<and>
   (searchSimilar env (dto_message dto) ragOptions = Inl e' \<longrightarrow>
      retrieveContext env (dto_message dto) = [] \<and>
      sendMessage env s dto = sendMessage (emptyKnowledge env) s dto \<and>
      streamMessage env s dto = streamMessage (emptyKnowledge env) s dto) \<and>
   searchSimilar (emptyKnowledge env) (dto_message dto) ragOptions = Inr []"
  using searchSimilar_embedding_failed [of env query e options]
    retrieveContext_failed [of env "dto_message dto" e']
    sendMessage_without_retrieval [of env dto s] streamMessage_without_retrieval [of env dto s]
    searchSimilar_emptyKnowledge [of env "dto_message dto" ragOptions]
  by blast

lemma mismatch_search_fails:
  "searchSimilar mismatchEnv message ragOptions =
     Inl (JsError ''Error'' ''Vectors must have the same length'' None)"
  by (simp add: searchSimilar_def mismatchEnv_def quietEnv_def isConfigured_def
      createEmbedding_def findChunks_def ragOptions_def rankChunk_def cosineSimilarity_def)

lemma noEmbedding_fails:
  "createEmbedding noEmbeddingEnv query = Inl (JsError ''Error'' ''connect ECONNREFUSED'' None)"
  by (simp add: createEmbedding_def noEmbeddingEnv_def tieEnv_def quietEnv_def isConfigured_def)

lemma generateResponseWithRAG_mismatch:
  "generateResponseWithRAG mismatchEnv message history relevantContext =
     Inr \<lparr> ai_content = ''ok'', ai_tokensUsed = Some 5, ai_model = Some ''gpt-4'' \<rparr>"
proof -
  have "callProvider mismatchEnv messages 0 =
          Inr \<lparr> ai_content = ''ok'', ai_tokensUsed = Some 5, ai_model = Some ''gpt-4'' \<rparr>"
    for messages
    by (simp add: callProvider_def mismatchEnv_def quietEnv_def trim_ok)
  then show ?thesis
    by (simp add: generateResponseWithRAG_def response_def isConfigured_def
        withRateLimitAndRetry_runs retryLoop_success mismatchEnv_def quietEnv_def)
qed

lemma mismatch_store: "storeFails mismatchEnv site = False"
  by (simp add: mismatchEnv_def quietEnv_def)

lemma mismatch_context: "retrieveContext mismatchEnv message = []"
  by (simp add: retrieveContext_def mismatch_search_fails)

theorem retrieval_failure_is_recovered_witness:
  "createEmbedding noEmbeddingEnv ''q'' = Inl (JsError ''Error'' ''connect ECONNREFUSED'' None) \<and>
   searchSimilar noEmbeddingEnv ''q'' noOptions = Inr [] \<and>
   searchSimilar mismatchEnv (dto_message hiDto) ragOptions =
     Inl (JsError ''Error'' ''Vectors must have the same length'' None) \<and>
   retrieveContext mismatchEnv (dto_message hiDto) = [] \<and>
   sendMessage mismatchEnv emptyState hiDto = sendMessage (emptyKnowledge mismatchEnv) emptyState hiDto \<and>
   streamMessage mismatchEnv emptyState hiDto =
     streamMessage (emptyKnowledge mismatchEnv) emptyState hiDto \<and>
   fst (sendMessage mismatchEnv emptyState hiDto) =
     Inr \<lparr> res_conversationId = 0,
           res_userMessage =
             \<lparr> msg_id = 1, msg_conversationId = 0, msg_role = User, msg_content = ''Hola'',
               msg_metadata = None, createdAt = 1 \<rparr>,
           res_assistantMessage =
             \<lparr> msg_id = 2, msg_conversationId = 0, msg_role = Assistant, msg_content = ''ok'',
               msg_metadata = Some \<lparr> tokensUsed = Some 5, model = Some ''gpt-4'' \<rparr>,
               createdAt = 2 \<rparr> \<rparr>"
proof -
  have sent: "fst (sendMessage mismatchEnv emptyState hiDto) =
     Inr \<lparr> res_conversationId = 0,
           res_userMessage =
             \<lparr> msg_id = 1, msg_conversationId = 0, msg_role = User, msg_content = ''Hola'',
               msg_metadata = None, createdAt = 1 \<rparr>,
           res_assistantMessage =
             \<lparr> msg_id = 2, msg_conversationId = 0, msg_role = Assistant, msg_content = ''ok'',
               msg_metadata = Some \<lparr> tokensUsed = Some 5, model = Some ''gpt-4'' \<rparr>,
               createdAt = 2 \<rparr> \<rparr>"
    by (simp add: sendMessage_def sendMessageBody_def findById_def createConversation_def
        createMessage_def getConversationHistory_def findHistoryMessages_def toHistory_def
        findByIdAndUpdate_def alloc_def deref_def Let_def mismatch_store mismatch_context
        generateResponseWithRAG_mismatch emptyState_def hiDto_def)
  from retrieval_failure_is_recovered [where env = noEmbeddingEnv and query = "''q''"
        and options = noOptions and e = "JsError ''Error'' ''connect ECONNREFUSED'' None"]
    retrieval_failure_is_recovered [where env = mismatchEnv and dto = hiDto and s = emptyState
        and e' = "JsError ''Error'' ''Vectors must have the same length'' None"]
    noEmbedding_fails [of "''q''"] mismatch_search_fails [of "dto_message hiDto"] sent
  show ?thesis by simp
qed

end
